theory Spec2Isabelle
  imports Complex_Main
begin

section \<open>Pipeline calibration routines (pipeline_cal.py)\<close>

text \<open>
  The numeric arrays of the program are numpy arrays of IEEE floating-point numbers.
  They are modelled here in exact arithmetic: a float64 or float32 cell is a \<open>real\<close>, a
  complex128 cell is a \<open>complex\<close>, and an n-dimensional array is a function from its
  indices to its cells, together with its shape where the program reads the shape or
  where an index can run out of range. Rounding, overflow, infinities and nan are not
  represented. Python integers are \<open>int\<close>; array positions are \<open>nat\<close>.
\<close>

subsection \<open>Exceptions and statements\<close>

datatype error =
  IndexError | ValueError | TypeError | NoValidGeometrySample | NotRepresentable

text \<open>
  The first three are the Python exceptions of these names. \<open>NoValidGeometrySample\<close>
  is the condition of that name in section 7 of the specification, raised by a helper
  that is not part of the sources. \<open>NotRepresentable\<close> is not an exception: it stands
  for a result that holds nan (the median of an empty reference window, lines 73-76,
  which the program computes without raising), for which exact arithmetic has no
  value.
\<close>

text \<open>
  A statement that mutates a state \<open>'s\<close> returns the state it leaves behind and the
  exception it raised, if any. \<open>for_each body vs\<close> is \<^verbatim>\<open>for v in vs: body\<close>: the
  first exception ends the loop and keeps the state reached so far.
\<close>

type_synonym 's stmt = "'s \<Rightarrow> error option \<times> 's"

fun for_each :: "('a \<Rightarrow> 's stmt) \<Rightarrow> 'a list \<Rightarrow> 's stmt" where
  "for_each body [] s = (None, s)"
| "for_each body (v # vs) s =
     (case body v s of
        (Some e, s') \<Rightarrow> (Some e, s')
      | (None, s') \<Rightarrow> for_each body vs s')"

subsection \<open>get_bl_order (lines 31-42)\<close>

definition n_ants :: int where
  "n_ants = 16"

text \<open>The body of the inner loop: lines 38-40, on the pair of lists (order1, order2).\<close>

definition bl_step ::
  "int \<Rightarrow> int \<Rightarrow> (int \<times> int) list \<times> (int \<times> int) list
     \<Rightarrow> (int \<times> int) list \<times> (int \<times> int) list" where
  "bl_step i j = (\<lambda>(order1, order2).
     let k = (i - j) mod n_ants
     in if i \<ge> k then (order1 @ [(k, i)], order2) else (order1, order2 @ [(i, k)]))"

text \<open>
  \<^verbatim>\<open>range(n_ants)\<close> is \<open>[0 .. n_ants - 1]\<close> and \<^verbatim>\<open>range(int(n_ants/2),-1,-1)\<close> is
  \<open>[0 .. n_ants div 2]\<close> read backwards.
\<close>

definition get_bl_order :: "(int \<times> int) list" where
  "get_bl_order =
     (let (order1, order2) =
            fold (\<lambda>i. fold (bl_step i) (rev [0 .. n_ants div 2])) [0 .. n_ants - 1] ([], []);
          order2' = filter (\<lambda>p. p \<notin> set order1) order2
      in order1 @ order2')"

text \<open>
  The algorithm in the words of the specification (section 4.1): list A collects
  \<open>(k, i)\<close> for every antenna \<open>i\<close> in \<open>0..N-1\<close> and offset \<open>j\<close> counting down from
  \<open>N/2\<close> to \<open>0\<close> with \<open>k = (i - j) mod N\<close> and \<open>i \<ge> k\<close>, list B collects \<open>(i, k)\<close> for
  the others; the output is A followed by the pairs of B that are not in A.
\<close>

definition spec_order :: "int \<Rightarrow> (int \<times> int) list" where
  "spec_order N =
     (let offsets = rev [0 .. N div 2];
          A = concat (map (\<lambda>i. concat (map (\<lambda>j. let k = (i - j) mod N in
                 if i \<ge> k then [(k, i)] else []) offsets)) [0 .. N - 1]);
          B = concat (map (\<lambda>i. concat (map (\<lambda>j. let k = (i - j) mod N in
                 if i \<ge> k then [] else [(i, k)]) offsets)) [0 .. N - 1])
      in A @ filter (\<lambda>p. \<not> List.member A p) B)"

subsection \<open>The data model\<close>

type_synonym 'a arr4 = "nat \<Rightarrow> nat \<Rightarrow> nat \<Rightarrow> nat \<Rightarrow> 'a"

text \<open>
  The dictionary returned by readXdata(): \<open>x\<close> is indexed [frequency, baseline,
  polarization product, time] and carries its shape; \<open>px\<close> and \<open>py\<close> are kept as the
  flat buffer in row-major order together with their shape, because apply_attn_corr
  reshapes them in place.
\<close>

record dataset =
  time :: "real list"
  fghz :: "real list"
  x :: "complex arr4"
  x_shape :: "nat \<times> nat \<times> nat \<times> nat"
  px :: "nat \<Rightarrow> real"
  px_shape :: "nat \<times> nat"
  py :: "nat \<Rightarrow> real"
  py_shape :: "nat \<times> nat"

text \<open>
  The dictionary returned by get_sql_info(): ParallacticAngle and ActualAzimuth are
  two-dimensional arrays, each with its shape (rows, columns); ParallacticAngle is
  indexed [time, antenna]. Time holds the sample times as Julian dates.
\<close>

record azeldict =
  ParallacticAngle :: "nat \<Rightarrow> nat \<Rightarrow> real"
  chi_shape :: "nat \<times> nat"
  ActualAzimuth :: "nat \<Rightarrow> nat \<Rightarrow> real"
  az_shape :: "nat \<times> nat"
  Time :: "real list"

text \<open>
  What \<^verbatim>\<open>ch.read_cal(11, t)\<close> and \<^verbatim>\<open>stateframe.extract\<close> hand to unrot: the
  frequency axis and the X-Y delay phase table, indexed [antenna, frequency].
\<close>

record xy_cal =
  FGHz :: "real list"
  XYphase :: "nat \<Rightarrow> nat \<Rightarrow> real"
  XYphase_shape :: "nat \<times> nat"

text \<open>
  What \<^verbatim>\<open>get_gain_state\<close> returns: the sample times, the four component tables
  indexed [antenna, time] and the attenuator table indexed [antenna, polarization, band].
  The provider is not part of the sources; its tables are taken with the shapes the
  program indexes them with (15 antennas, 2 polarizations, 34 bands, one column per
  sample time).
\<close>

record gain_state =
  times :: "real list"
  h1 :: "nat \<Rightarrow> nat \<Rightarrow> real"
  h2 :: "nat \<Rightarrow> nat \<Rightarrow> real"
  v1 :: "nat \<Rightarrow> nat \<Rightarrow> real"
  v2 :: "nat \<Rightarrow> nat \<Rightarrow> real"
  dcmattn :: "nat \<Rightarrow> nat \<Rightarrow> nat \<Rightarrow> real"

subsection \<open>Helpers of util.py\<close>

text \<open>
  Modelled from the spec: util.lobe is not part of the sources. Section 4.3, step 6
  calls it wrap: it "reduces an angle to a canonical range, e.g. (-pi, pi]", that is,
  it takes away the multiple of \<open>2 * pi\<close> that brings the angle into that range.
\<close>

definition lobe :: "real \<Rightarrow> real" where
  "lobe a = a - 2 * pi * of_int \<lceil>(a - pi) / (2 * pi)\<rceil>"

text \<open>
  Modelled from the spec: util.common_val_idx is not part of the sources. Section 4.3,
  step 5: dataset frequencies are matched to calibration frequencies "by value at fixed
  decimal precision". The result is the positions in the first array of the values that
  occur in the second, in increasing order, and for each of them the position of its
  first match in the second array.
\<close>

definition at_precision :: "nat \<Rightarrow> real \<Rightarrow> int" where
  "at_precision p v = round (v * 10 ^ p)"

fun first_pos :: "'a list \<Rightarrow> 'a \<Rightarrow> nat" where
  "first_pos [] v = 0"
| "first_pos (a # as) v = (if a = v then 0 else Suc (first_pos as v))"

definition common_val_idx :: "real list \<Rightarrow> real list \<Rightarrow> nat \<Rightarrow> nat list \<times> nat list" where
  "common_val_idx array1 array2 p =
     (let r1 = map (at_precision p) array1;
          r2 = map (at_precision p) array2;
          idx1 = filter (\<lambda>m. r1 ! m \<in> set r2) [0 ..< length array1];
          idx2 = map (\<lambda>m. first_pos r2 (r1 ! m)) idx1
      in (idx1, idx2))"

text \<open>
  Modelled from the spec: util.nearest_val_idx is not part of the sources. Section 4.2,
  step 7 and section 4.3, step 3: for each entry of the first array it selects the
  nearest entry of the second, "nearest-neighbor by absolute time difference", and
  returns its position (the first one when two are equally near). Section 7: when
  there is no sample to select from, the call fails with NoValidGeometrySample.
\<close>

definition nearest_pos :: "real \<Rightarrow> real list \<Rightarrow> nat" where
  "nearest_pos v bs = (let ds = map (\<lambda>b. \<bar>b - v\<bar>) bs in first_pos ds (fold min ds (hd ds)))"

definition nearest_val_idx :: "real list \<Rightarrow> real list \<Rightarrow> error + nat list" where
  "nearest_val_idx array1 array2 =
     (if array2 = [] then Inl NoValidGeometrySample
      else Inr (map (\<lambda>v. nearest_pos v array2) array1))"

subsection \<open>unrot (lines 151-217)\<close>

text \<open>Line 173, \<^verbatim>\<open>chi[:,i] -= chi[:,13]\<close>, on the array the dictionary holds.\<close>

definition sub_chi13 :: "nat \<Rightarrow> azeldict stmt" where
  "sub_chi13 i a =
     (let (rows, cols) = chi_shape a; chi = ParallacticAngle a
      in if i < cols \<and> 13 < cols
         then (None, a\<lparr>ParallacticAngle :=
                 (\<lambda>n c. if n < rows \<and> c = i then chi n i - chi n 13 else chi n c)\<rparr>)
         else (Some IndexError, a))"

text \<open>
  Line 176: \<open>good\<close>, the positions of the non-zero entries of row 0 of ActualAzimuth.
\<close>

definition good_azimuth :: "azeldict \<Rightarrow> nat list" where
  "good_azimuth a = filter (\<lambda>c. ActualAzimuth a 0 c \<noteq> 0) [0 ..< snd (az_shape a)]"

text \<open>
  Lines 176-177: \<open>tidx\<close>. Row 0 of ActualAzimuth must exist, the positions \<open>good\<close>
  index the Time axis, where a position beyond its end raises IndexError, and the
  selected times go to \<^verbatim>\<open>nearest_val_idx\<close> with the dataset times.
\<close>

definition geometry_tidx :: "azeldict \<Rightarrow> dataset \<Rightarrow> error + nat list" where
  "geometry_tidx a data =
     (if fst (az_shape a) = 0 then Inl IndexError
      else if \<not> list_all (\<lambda>g. g < length (Time a)) (good_azimuth a) then Inl IndexError
      else nearest_val_idx (time data) (map (\<lambda>g. Time a ! g) (good_azimuth a)))"

text \<open>Lines 182-183: the positions of the non-zero entries of the frequency axis.\<close>

definition nonzero_freqs :: "xy_cal \<Rightarrow> nat list" where
  "nonzero_freqs cal = filter (\<lambda>g. FGHz cal ! g \<noteq> 0) [0 ..< length (FGHz cal)]"

text \<open>
  \<^verbatim>\<open>data['x'][fidx1,k,p] *= np.repeat(fac,nt).reshape(nf,nt)\<close>: the rows named by
  \<open>fidx1\<close> are read, row \<open>m\<close> is multiplied by \<open>fac m\<close> at every time, and the products
  are stored back in the order of \<open>fidx1\<close>.
\<close>

definition mul_rows ::
  "nat \<times> nat \<times> nat \<times> nat \<Rightarrow> nat list \<Rightarrow> nat \<Rightarrow> nat \<Rightarrow> (nat \<Rightarrow> complex) \<Rightarrow> complex arr4 stmt" where
  "mul_rows sh fidx1 k p fac X =
     (let (nf, nbl, npol, nt) = sh
      in if k < nbl \<and> p < npol \<and> (\<forall>f \<in> set fidx1. f < nf)
         then (None,
               fold (\<lambda>m Y. (\<lambda>f k' p' n.
                       if f = fidx1 ! m \<and> k' = k \<and> p' = p \<and> n < nt
                       then X (fidx1 ! m) k p n * fac m else Y f k' p' n))
                    [0 ..< length fidx1] X)
         else (Some IndexError, X))"

text \<open>Lines 193-200, the body of the delay-phase loop, for entry \<open>k\<close> of the baseline order.\<close>

definition delay_phase ::
  "(nat \<Rightarrow> nat \<Rightarrow> real) \<Rightarrow> nat \<times> nat \<Rightarrow> nat list \<Rightarrow> nat list \<Rightarrow> nat \<times> nat \<times> nat \<times> nat
     \<Rightarrow> nat \<times> int \<times> int \<Rightarrow> complex arr4 stmt" where
  "delay_phase dph dph_shape fidx1 fidx2 sh = (\<lambda>(k, i, j) X.
     if i < 14 \<and> j < 14 \<and> i \<noteq> j then
       (let (rows, cols) = dph_shape
        in if \<not> (nat i < rows \<and> nat j < rows \<and> (\<forall>c \<in> set fidx2. c < cols))
           then (Some IndexError, X)
           else
            let a1 = (\<lambda>m. lobe (dph (nat i) (fidx2 ! m) - dph (nat j) (fidx2 ! m)));
                a2 = (\<lambda>m. - dph (nat j) (fidx2 ! m) + pi / 2);
                a3 = (\<lambda>m. dph (nat i) (fidx2 ! m) - pi / 2)
            in case mul_rows sh fidx1 k 1 (\<lambda>m. exp (\<i> * complex_of_real (a1 m))) X of
                 (Some e, X1) \<Rightarrow> (Some e, X1)
               | (None, X1) \<Rightarrow>
                  (case mul_rows sh fidx1 k 2 (\<lambda>m. exp (\<i> * complex_of_real (a2 m))) X1 of
                     (Some e, X2) \<Rightarrow> (Some e, X2)
                   | (None, X2) \<Rightarrow>
                       mul_rows sh fidx1 k 3 (\<lambda>m. exp (\<i> * complex_of_real (a3 m))) X2))
     else (None, X))"

text \<open>\<^verbatim>\<open>cdata['x'][:,k,p,n] = v\<close>: one value per frequency row of the array.\<close>

definition set_col ::
  "nat \<Rightarrow> nat \<Rightarrow> nat \<Rightarrow> nat \<Rightarrow> (nat \<Rightarrow> complex) \<Rightarrow> complex arr4 \<Rightarrow> complex arr4" where
  "set_col nf k p n v C = (\<lambda>f k' p' n'.
     if f < nf \<and> k' = k \<and> p' = p \<and> n' = n then v f else C f k' p' n')"

text \<open>
  Lines 206-214, the body of the feed-rotation loop at time \<open>n\<close>, for entry \<open>k\<close> of the
  baseline order: \<open>D\<close> is \<^verbatim>\<open>data['x']\<close>, which the loop only reads, the state is
  \<^verbatim>\<open>cdata['x']\<close>.
\<close>

definition feed_rotation ::
  "(nat \<Rightarrow> nat \<Rightarrow> real) \<Rightarrow> nat \<times> nat \<Rightarrow> complex arr4 \<Rightarrow> nat \<times> nat \<times> nat \<times> nat \<Rightarrow> nat
     \<Rightarrow> nat \<times> int \<times> int \<Rightarrow> complex arr4 stmt" where
  "feed_rotation chi chi_sh D sh n = (\<lambda>(k, i, j) C.
     if i < 14 \<and> j < 14 \<and> i \<noteq> j then
       (let (rows, cols) = chi_sh; (nf, nbl, npol, nt) = sh
        in if \<not> (n < rows \<and> nat i < cols \<and> nat j < cols \<and> k < nbl \<and> 3 < npol \<and> n < nt)
           then (Some IndexError, C)
           else
            let dchi = chi n (nat i) - chi n (nat j);
                cchi = complex_of_real (cos dchi);
                schi = complex_of_real (sin dchi);
                C0 = set_col nf k 0 n (\<lambda>f. D f k 0 n * cchi + D f k 3 n * schi) C;
                C2 = set_col nf k 2 n (\<lambda>f. D f k 2 n * cchi + D f k 1 n * schi) C0;
                C3 = set_col nf k 3 n (\<lambda>f. D f k 3 n * cchi - D f k 0 n * schi) C2
            in (None, set_col nf k 1 n (\<lambda>f. D f k 1 n * cchi - D f k 2 n * schi) C3))
     else (None, C))"

text \<open>
  Lines 168-169: the dictionary the body works on is the caller's, or the one fetched
  from the database when the caller passes None.
\<close>

definition the_azeldict :: "azeldict \<Rightarrow> azeldict option \<Rightarrow> azeldict" where
  "the_azeldict sql_info azeldict = (case azeldict of None \<Rightarrow> sql_info | Some a \<Rightarrow> a)"

text \<open>
  What a call of unrot leaves behind: the value it returns or the exception it raises,
  the caller's \<open>data\<close> dictionary and the caller's \<open>azeldict\<close> argument as they are
  after the call.
\<close>

record unrot_outcome =
  returned :: "error + dataset"
  data_after :: dataset
  azeldict_after :: "azeldict option"

definition raised :: "error \<Rightarrow> dataset \<Rightarrow> azeldict option \<Rightarrow> unrot_outcome" where
  "raised e d a = \<lparr>returned = Inl e, data_after = d, azeldict_after = a\<rparr>"

text \<open>
  Lines 164-214. \<open>cal\<close> is the record that \<^verbatim>\<open>ch.read_cal(11,t=trange[0])\<close> finds and
  \<open>sql_info\<close> the dictionary that \<^verbatim>\<open>get_sql_info(trange)\<close> builds; both calls leave
  the sources and are taken to return. Lines 176-177 compute \<open>tidx\<close> and can raise;
  no later line reads \<open>tidx\<close> (line 208 indexes \<open>chi\<close> with the time index \<open>n\<close> of the
  dataset). \<open>returned\<close> holds \<open>cdata\<close> as it is after line 214.
\<close>

definition unrot_body :: "xy_cal \<Rightarrow> azeldict \<Rightarrow> dataset \<Rightarrow> azeldict option \<Rightarrow> unrot_outcome" where
  "unrot_body cal sql_info data azeldict =
     (if time data = [] then raised IndexError data azeldict
      else
       let az0 = the_azeldict sql_info azeldict;
           seen = (\<lambda>a. case azeldict of None \<Rightarrow> None | Some _ \<Rightarrow> Some a)
       in case for_each sub_chi13 [8, 9, 10, 12, 13] az0 of
            (Some e, az) \<Rightarrow> raised e data (seen az)
          | (None, az) \<Rightarrow>
             (case geometry_tidx az data of
                Inl e \<Rightarrow> raised e data (seen az)
              | Inr tidx \<Rightarrow>
                 (let good = nonzero_freqs cal;
                      (rows, cols) = XYphase_shape cal
                  in if \<not> (\<forall>g \<in> set good. g < cols) then raised IndexError data (seen az)
                     else
                      (let fghz_c = map (\<lambda>g. FGHz cal ! g) good;
                           dph = (\<lambda>i m. XYphase cal i (good ! m));
                           (fidx1, fidx2) = common_val_idx (fghz data) fghz_c 4;
                           sh = x_shape data;
                           (nf, nbl, npol, nt) = sh
                       in (case for_each (delay_phase dph (rows, length good) fidx1 fidx2 sh)
                                  (enumerate 0 get_bl_order) (x data) of
                             (Some e, X) \<Rightarrow> raised e (data\<lparr>x := X\<rparr>) (seen az)
                           | (None, X) \<Rightarrow>
                              (case for_each (\<lambda>n. for_each
                                        (feed_rotation (ParallacticAngle az) (chi_shape az) X sh n)
                                        (enumerate 0 get_bl_order)) [0 ..< nt] X of
                                 (Some e, C) \<Rightarrow> raised e (data\<lparr>x := X\<rparr>) (seen az)
                               | (None, C) \<Rightarrow>
                                  \<lparr>returned = Inr (data\<lparr>x := C\<rparr>),
                                   data_after = data\<lparr>x := X\<rparr>,
                                   azeldict_after = seen az\<rparr>))))))"

text \<open>
  Line 187: the positions of the dataset frequencies that have no match,
  \<^verbatim>\<open>np.setdiff1d(np.arange(len(data['fghz'])),fidx1)\<close>.
\<close>

definition missing :: "xy_cal \<Rightarrow> dataset \<Rightarrow> nat list" where
  "missing cal data =
     (let good = nonzero_freqs cal;
          (fidx1, fidx2) = common_val_idx (fghz data) (map (\<lambda>g. FGHz cal ! g) good) 4
      in filter (\<lambda>m. m \<notin> set fidx1) [0 ..< length (fghz data)])"

text \<open>
  Line 216, \<^verbatim>\<open>cdata[missing] = np.ma.masked\<close>. \<open>cdata\<close> is a dict (the deep copy of
  the dict \<open>data\<close>), and \<open>missing\<close> is a numpy array. Item assignment on a dict hashes
  the key, and a numpy array has no hash: whatever the array holds, and also when it
  is empty, the statement raises TypeError and stores nothing.
\<close>

definition setitem_ndarray_key :: "dataset \<Rightarrow> nat list \<Rightarrow> error + dataset" where
  "setitem_ndarray_key cdata key = Inl TypeError"

definition unrot :: "xy_cal \<Rightarrow> azeldict \<Rightarrow> dataset \<Rightarrow> azeldict option \<Rightarrow> unrot_outcome" where
  "unrot cal sql_info data azeldict =
     (let out = unrot_body cal sql_info data azeldict
      in case returned out of
           Inl e \<Rightarrow> out
         | Inr cdata \<Rightarrow> out\<lparr>returned := setitem_ndarray_key cdata (missing cal data)\<rparr>)"

subsection \<open>apply_attn_corr (lines 44-124)\<close>

text \<open>
  The calls that leave the sources are parameters: \<open>ref_gs\<close> is what
  \<^verbatim>\<open>get_gain_state(trefrange)\<close> returns (line 71; the reference time is resolved before,
  lines 64-70), \<open>src_gs\<close> is what \<^verbatim>\<open>get_gain_state(trange,dt)\<close> returns (line 84), and
  \<open>idx\<close> is the index array that \<^verbatim>\<open>nearest_val_idx\<close> returns (line 109), one position in
  the gain times for each entry; what is proved below holds for every index array.
\<close>

text \<open>\<^verbatim>\<open>np.median\<close> of a one-dimensional array that is not empty.\<close>

definition median :: "real list \<Rightarrow> real" where
  "median vs =
     (let s = sort vs; n = length s
      in if even n then (s ! (n div 2 - 1) + s ! (n div 2)) / 2 else s ! (n div 2))"

text \<open>Lines 73-76: the median over the reference window of row \<open>i\<close> of a component table.\<close>

definition ref_median :: "gain_state \<Rightarrow> (gain_state \<Rightarrow> nat \<Rightarrow> nat \<Rightarrow> real) \<Rightarrow> nat \<Rightarrow> real" where
  "ref_median ref_gs tab i = median (map (tab ref_gs i) [0 ..< length (times ref_gs)])"

text \<open>\<^verbatim>\<open>np.round\<close> rounds a half to the even neighbour.\<close>

definition round_half_even :: "real \<Rightarrow> int" where
  "round_half_even v =
     (if v - of_int \<lfloor>v\<rfloor> < 1 / 2 then \<lfloor>v\<rfloor>
      else if v - of_int \<lfloor>v\<rfloor> > 1 / 2 then \<lfloor>v\<rfloor> + 1
      else if even \<lfloor>v\<rfloor> then \<lfloor>v\<rfloor> else \<lfloor>v\<rfloor> + 1)"

text \<open>
  Lines 81-82: the time cadence in seconds, None when it is 1. With a single time
  sample the array of differences is empty, its median is nan, and \<^verbatim>\<open>np.int\<close> of nan
  raises ValueError.
\<close>

definition cadence :: "real list \<Rightarrow> error + int option" where
  "cadence ts =
     (if length ts < 2 then Inl ValueError
      else
       let dt = round_half_even
                  (median (map (\<lambda>m. ts ! Suc m - ts ! m) [0 ..< length ts - 1]) * 86400)
       in Inr (if dt = 1 then None else Some dt))"

text \<open>\<^verbatim>\<open>A[i,p,j] = v\<close> on an array indexed [antenna, polarization, band, time].\<close>

definition set_row ::
  "nat \<Rightarrow> nat \<Rightarrow> nat \<Rightarrow> nat \<Rightarrow> (nat \<Rightarrow> real) \<Rightarrow> real arr4 \<Rightarrow> real arr4" where
  "set_row nt i p j v A = (\<lambda>i' p' j' t.
     if i' = i \<and> p' = p \<and> j' = j \<and> t < nt then v t else A i' p' j' t)"

text \<open>Lines 89-90, the body of the loops that fill \<open>antgain\<close>.\<close>

definition antgain_step ::
  "gain_state \<Rightarrow> gain_state \<Rightarrow> nat \<Rightarrow> nat \<Rightarrow> nat \<Rightarrow> real arr4 \<Rightarrow> real arr4" where
  "antgain_step src_gs ref_gs nt i j A =
     (let A0 = set_row nt i 0 j
                 (\<lambda>t. h1 src_gs i t + h2 src_gs i t - ref_median ref_gs h1 i - ref_median ref_gs h2 i
                        + dcmattn src_gs i 0 j - dcmattn ref_gs i 0 j) A
      in set_row nt i 1 j
           (\<lambda>t. v1 src_gs i t + v2 src_gs i t - ref_median ref_gs v1 i - ref_median ref_gs v2 i
                  + dcmattn src_gs i 1 j - dcmattn ref_gs i 1 j) A0)"

text \<open>Lines 85-90: \<open>antgain\<close>, indexed [antenna, polarization, band, gain time].\<close>

definition antgain :: "gain_state \<Rightarrow> gain_state \<Rightarrow> real arr4" where
  "antgain src_gs ref_gs =
     (let nt = length (times src_gs)
      in fold (\<lambda>i. fold (antgain_step src_gs ref_gs nt i) [0 ..< 34]) [0 ..< 15]
           (\<lambda>i p j t. 0))"

text \<open>
  Line 96. \<^verbatim>\<open>astype(int)\<close> drops the fractional part of a float, towards zero.
\<close>

definition astype_int :: "real \<Rightarrow> int" where
  "astype_int v = (if 0 \<le> v then \<lfloor>v\<rfloor> else \<lceil>v\<rceil>)"

definition blist :: "real list \<Rightarrow> int list" where
  "blist fs = map (\<lambda>f. astype_int (f * 2 - 1) - 1) fs"

text \<open>
  Indexing an axis of length \<open>n\<close> with an integer array: a negative entry counts from
  the end, an entry outside \<open>-n .. n-1\<close> raises IndexError.
\<close>

definition np_indices :: "nat \<Rightarrow> int list \<Rightarrow> error + nat list" where
  "np_indices n bs =
     (if list_all (\<lambda>b. - int n \<le> b \<and> b < int n) bs
      then Inr (map (\<lambda>b. nat (if b < 0 then b + int n else b)) bs)
      else Inl IndexError)"

text \<open>\<^verbatim>\<open>blgain[:,k,p] = v\<close> on an array indexed [frequency, baseline, product, gain time].\<close>

definition set_plane ::
  "nat \<Rightarrow> nat \<Rightarrow> nat \<Rightarrow> nat \<Rightarrow> (nat \<Rightarrow> nat \<Rightarrow> real) \<Rightarrow> real arr4 \<Rightarrow> real arr4" where
  "set_plane nf nt k p v B = (\<lambda>f k' p' t.
     if f < nf \<and> k' = k \<and> p' = p \<and> t < nt then v f t else B f k' p' t)"

text \<open>
  Lines 99-104, the body of the loop that fills \<open>blgain\<close>, for entry \<open>k\<close> of the
  baseline order. \<open>bands\<close> is \<open>blist\<close> as positions of the band axis.
\<close>

definition blgain_step ::
  "real arr4 \<Rightarrow> nat list \<Rightarrow> nat \<Rightarrow> nat \<times> int \<times> int \<Rightarrow> real arr4 \<Rightarrow> real arr4" where
  "blgain_step ag bands nt = (\<lambda>(k, i, j) B.
     if i < 15 \<and> j < 15 then
       (let nf = length bands;
            g = (\<lambda>a b f t. 10 powr ((ag (nat i) a (bands ! f) t + ag (nat j) b (bands ! f) t) / 20));
            B0 = set_plane nf nt k 0 (g 0 0) B;
            B1 = set_plane nf nt k 1 (g 1 1) B0;
            B2 = set_plane nf nt k 2 (g 0 1) B1
        in set_plane nf nt k 3 (g 1 0) B2)
     else B)"

text \<open>
  In-place arithmetic with a right-hand side of another shape: an axis of the right
  fits an axis of the left when the lengths agree or the right one is 1, and then its
  only entry is used at every position.
\<close>

definition fits :: "nat \<Rightarrow> nat \<Rightarrow> bool" where
  "fits d_right d_left = (d_right = d_left \<or> d_right = 1)"

definition bc :: "nat \<Rightarrow> nat \<Rightarrow> nat \<Rightarrow> nat" where
  "bc d_right d_left m = (if d_right = d_left then m else 0)"

text \<open>
  Lines 113-123 on one of the power arrays. The flat buffer is read with the shape
  (134, 16, 3, nt): entry [s, a, c, t] is at position \<open>((s * 16 + a) * 3 + c) * nt + t\<close>.
  For the antennas below 15, moment 0 is multiplied by \<open>gf\<close> and moment 1 by its
  square, where \<open>gf s a n\<close> is \<^verbatim>\<open>antgainf[s,a,pol,idx[n]]\<close>.
\<close>

definition scale_power ::
  "nat \<Rightarrow> nat \<Rightarrow> nat \<Rightarrow> (nat \<Rightarrow> nat \<Rightarrow> nat \<Rightarrow> real) \<Rightarrow> (nat \<Rightarrow> real) \<Rightarrow> (nat \<Rightarrow> real)" where
  "scale_power nf nidx nt gf buf = (\<lambda>b.
     if b < 134 * 16 * 3 * nt then
       (let t = b mod nt; c = (b div nt) mod 3; a = (b div (3 * nt)) mod 16;
            s = b div (48 * nt);
            g = gf (bc nf 134 s) a (bc nidx nt t)
        in if a < 15 \<and> c = 0 then buf b * g
           else if a < 15 \<and> c = 1 then buf b * g\<^sup>2
           else buf b)
     else buf b)"

definition apply_attn_corr ::
  "gain_state \<Rightarrow> gain_state \<Rightarrow> nat list \<Rightarrow> dataset \<Rightarrow> error + dataset" where
  "apply_attn_corr ref_gs src_gs idx data =
     (if time data = [] then Inl IndexError
      else
       (case cadence (time data) of
          Inl e \<Rightarrow> Inl e
        | Inr dt \<Rightarrow>
           (let nt = length (times src_gs);
                ag = antgain src_gs ref_gs;
                nf = length (fghz data)
            in (case np_indices 34 (blist (fghz data)) of
                  Inl e \<Rightarrow> Inl e
                | Inr bands \<Rightarrow>
                   (let blgain = fold (blgain_step ag bands nt) (enumerate 0 get_bl_order)
                                   (\<lambda>f k p t. 0);
                        antgainf = (\<lambda>q s a n. 10 powr (ag a q (bands ! s) (idx ! n) / 10));
                        (nfx, nblx, npolx, ntx) = x_shape data;
                        (pxr, pxc) = px_shape data;
                        (pyr, pyc) = py_shape data
                    in if \<not> list_all (\<lambda>n. n < nt) idx then Inl IndexError
                       else if \<not> (fits nf nfx \<and> fits 136 nblx \<and> fits 4 npolx
                                    \<and> fits (length idx) ntx) then Inl ValueError
                       else if pxr * pxc \<noteq> 134 * 16 * 3 * nt then Inl ValueError
                       else if pyr * pyc \<noteq> 134 * 16 * 3 * nt then Inl ValueError
                       else if \<not> (fits nf 134 \<and> fits (length idx) nt) then Inl ValueError
                       else if times ref_gs = [] then Inl NotRepresentable
                       else Inr (data
                              \<lparr>x := (\<lambda>f k p n.
                                     if f < nfx \<and> k < nblx \<and> p < npolx \<and> n < ntx
                                     then x data f k p n
                                          * complex_of_real (blgain (bc nf nfx f) (bc 136 nblx k)
                                              (bc 4 npolx p) (idx ! bc (length idx) ntx n))
                                     else x data f k p n),
                               px := scale_power nf (length idx) nt (antgainf 0) (px data),
                               px_shape := (134 * 16 * 3, nt),
                               py := scale_power nf (length idx) nt (antgainf 1) (py data),
                               py_shape := (134 * 16 * 3, nt)\<rparr>))))))"

subsection \<open>Closed forms of the loops of unrot\<close>

text \<open>
  The definitions of this subsection are not translations of source lines: they name
  what the loops above compute, cell by cell, and are proved equal to the loops below.
\<close>

text \<open>The test of lines 194 and 207 on an entry \<open>(i, j)\<close> of the baseline order.\<close>

definition corrected :: "int \<times> int \<Rightarrow> bool" where
  "corrected bl = (fst bl < 14 \<and> snd bl < 14 \<and> fst bl \<noteq> snd bl)"

text \<open>
  The factor that lines 195-200 put on polarization product \<open>p\<close> of baseline \<open>bl\<close>, from
  column \<open>c\<close> of the delay phase table.
\<close>

definition xy_factor :: "(nat \<Rightarrow> nat \<Rightarrow> real) \<Rightarrow> nat \<Rightarrow> int \<times> int \<Rightarrow> nat \<Rightarrow> complex" where
  "xy_factor dph p bl c =
     (if p = 1 then exp (\<i> * complex_of_real (lobe (dph (nat (fst bl)) c - dph (nat (snd bl)) c)))
      else if p = 2 then exp (\<i> * complex_of_real (- dph (nat (snd bl)) c + pi / 2))
      else if p = 3 then exp (\<i> * complex_of_real (dph (nat (fst bl)) c - pi / 2))
      else 1)"

text \<open>
  Lines 211-214 on the four polarization products \<open>v 0, ..., v 3\<close> of one cell, and the
  angle of line 208.
\<close>

definition rot4 :: "real \<Rightarrow> (nat \<Rightarrow> complex) \<Rightarrow> nat \<Rightarrow> complex" where
  "rot4 dchi v p =
     (if p = 0 then v 0 * complex_of_real (cos dchi) + v 3 * complex_of_real (sin dchi)
      else if p = 1 then v 1 * complex_of_real (cos dchi) - v 2 * complex_of_real (sin dchi)
      else if p = 2 then v 2 * complex_of_real (cos dchi) + v 1 * complex_of_real (sin dchi)
      else if p = 3 then v 3 * complex_of_real (cos dchi) - v 0 * complex_of_real (sin dchi)
      else v p)"

definition dchi_of :: "(nat \<Rightarrow> nat \<Rightarrow> real) \<Rightarrow> nat \<Rightarrow> int \<times> int \<Rightarrow> real" where
  "dchi_of chi n bl = chi n (nat (fst bl)) - chi n (nat (snd bl))"

text \<open>
  The inputs on which no line of unrot before line 216 raises: a time axis that is not
  empty, an \<open>x\<close> array with a row for every dataset frequency, at least 136 baselines
  and 4 polarization products, a delay phase table with at least 14 antennas and a
  column for every entry of the calibration frequency axis, a parallactic angle
  table with at least 14 antennas and a row for every time sample of \<open>x\<close>, and for
  lines 176-177 an ActualAzimuth table with a row 0 whose non-zero positions are not
  empty and lie within the Time axis.
\<close>

definition unrot_shapes_ok :: "xy_cal \<Rightarrow> azeldict \<Rightarrow> dataset \<Rightarrow> bool" where
  "unrot_shapes_ok cal az data =
     (case (x_shape data, XYphase_shape cal, chi_shape az) of
        ((nf, nbl, npol, nt), (rows, cols), (crows, ccols)) \<Rightarrow>
          time data \<noteq> [] \<and> length (fghz data) \<le> nf \<and> 136 \<le> nbl \<and> 4 \<le> npol
          \<and> 14 \<le> rows \<and> length (FGHz cal) \<le> cols \<and> 14 \<le> ccols \<and> nt \<le> crows
          \<and> 0 < fst (az_shape az) \<and> good_azimuth az \<noteq> []
          \<and> list_all (\<lambda>g. g < length (Time az)) (good_azimuth az))"

text \<open>The dictionary after the loop of lines 172-173.\<close>

definition chi_rel13 :: "azeldict \<Rightarrow> azeldict" where
  "chi_rel13 a = a\<lparr>ParallacticAngle := (\<lambda>n c.
             if n < fst (chi_shape a) \<and> c \<in> {8, 9, 10, 12}
             then ParallacticAngle a n c - ParallacticAngle a n 13
             else if n < fst (chi_shape a) \<and> c = 13 then 0
             else ParallacticAngle a n c)\<rparr>"

text \<open>
  Lines 184-186: the delay phase table restricted to the non-zero frequencies, and the
  two index arrays of the frequency match.
\<close>

definition dph_of :: "xy_cal \<Rightarrow> nat \<Rightarrow> nat \<Rightarrow> real" where
  "dph_of cal = (\<lambda>i m. XYphase cal i (nonzero_freqs cal ! m))"

definition fidx_of :: "xy_cal \<Rightarrow> dataset \<Rightarrow> nat list \<times> nat list" where
  "fidx_of cal data =
     common_val_idx (fghz data) (map (\<lambda>g. FGHz cal ! g) (nonzero_freqs cal)) 4"

text \<open>\<^verbatim>\<open>data['x']\<close> after the loop of lines 192-200.\<close>

definition delay_corrected :: "xy_cal \<Rightarrow> dataset \<Rightarrow> complex arr4" where
  "delay_corrected cal data = (\<lambda>f k p n.
     if k < 136 \<and> corrected (get_bl_order ! k) \<and> f \<in> set (fst (fidx_of cal data))
        \<and> n < snd (snd (snd (x_shape data)))
     then x data f k p n * xy_factor (dph_of cal) p (get_bl_order ! k)
                             (snd (fidx_of cal data) ! first_pos (fst (fidx_of cal data)) f)
     else x data f k p n)"

text \<open>\<^verbatim>\<open>cdata['x']\<close> after the loop of lines 204-214, from \<^verbatim>\<open>data['x']\<close> = \<open>D\<close>.\<close>

definition rotated :: "(nat \<Rightarrow> nat \<Rightarrow> real) \<Rightarrow> nat \<Rightarrow> nat \<Rightarrow> complex arr4 \<Rightarrow> complex arr4" where
  "rotated chi nf nt D = (\<lambda>f k p n.
     if k < 136 \<and> n < nt \<and> corrected (get_bl_order ! k) \<and> f < nf \<and> p < 4
     then rot4 (dchi_of chi n (get_bl_order ! k)) (\<lambda>q. D f k q n) p
     else D f k p n)"

subsection \<open>Closed forms of the loops of apply_attn_corr\<close>

text \<open>
  The value that lines 89-90 store in \<^verbatim>\<open>antgain[i,q,j,t]\<close>: the two component tables
  minus their reference medians, plus the difference of the attenuator settings.
\<close>

definition ant_db :: "gain_state \<Rightarrow> gain_state \<Rightarrow> nat \<Rightarrow> nat \<Rightarrow> nat \<Rightarrow> nat \<Rightarrow> real" where
  "ant_db src_gs ref_gs i q j t =
     (if q = 0
      then h1 src_gs i t + h2 src_gs i t - ref_median ref_gs h1 i - ref_median ref_gs h2 i
           + dcmattn src_gs i 0 j - dcmattn ref_gs i 0 j
      else v1 src_gs i t + v2 src_gs i t - ref_median ref_gs v1 i - ref_median ref_gs v2 i
           + dcmattn src_gs i 1 j - dcmattn ref_gs i 1 j)"

text \<open>
  The polarization of antenna \<open>i\<close> and of antenna \<open>j\<close> in polarization product \<open>p\<close>, as
  lines 101-104 pair them (0 is H, 1 is V): product 0 is H with H, product 1 is V with
  V, product 2 is H with V, product 3 is V with H.
\<close>

definition pol_i :: "nat \<Rightarrow> nat" where
  "pol_i p = (if p = 0 \<or> p = 2 then 0 else 1)"

definition pol_j :: "nat \<Rightarrow> nat" where
  "pol_j p = (if p = 0 \<or> p = 3 then 0 else 1)"

text \<open>
  The shapes with which apply_attn_corr raises nothing: at least two time samples, a
  reference window that is not empty, band indices within the 34 bands, gain-time
  indices within the gain times, an \<open>x\<close> array of shape (frequencies, 136, 4, times),
  power arrays of 134 * 16 * 3 rows per gain time, and a dataset of 134 frequencies
  or of a single one, with one time sample per gain time or a single one (lines 116-120
  multiply a (134, 15, nt) block by an array that has one row per dataset frequency).
\<close>

definition attn_shapes_ok :: "gain_state \<Rightarrow> gain_state \<Rightarrow> nat list \<Rightarrow> dataset \<Rightarrow> bool" where
  "attn_shapes_ok ref_gs src_gs idx data =
     (2 \<le> length (time data) \<and> times ref_gs \<noteq> []
      \<and> list_all (\<lambda>b. - 34 \<le> b \<and> b < 34) (blist (fghz data))
      \<and> list_all (\<lambda>n. n < length (times src_gs)) idx
      \<and> x_shape data = (length (fghz data), 136, 4, length idx)
      \<and> fst (px_shape data) * snd (px_shape data) = 134 * 16 * 3 * length (times src_gs)
      \<and> fst (py_shape data) * snd (py_shape data) = 134 * 16 * 3 * length (times src_gs)
      \<and> fits (length (fghz data)) 134 \<and> fits (length idx) (length (times src_gs)))"

text \<open>\<open>blist\<close> as positions of the band axis, and the entry of \<open>blgain\<close> that line 111 uses.\<close>

definition bands_of :: "dataset \<Rightarrow> nat list" where
  "bands_of data = map (\<lambda>b. nat (if b < 0 then b + 34 else b)) (blist (fghz data))"

definition bl_factor ::
  "gain_state \<Rightarrow> gain_state \<Rightarrow> nat list \<Rightarrow> dataset \<Rightarrow> nat \<Rightarrow> nat \<Rightarrow> nat \<Rightarrow> nat \<Rightarrow> real" where
  "bl_factor ref_gs src_gs idx data f k p n =
     (if fst (get_bl_order ! k) < 15 \<and> snd (get_bl_order ! k) < 15
      then 10 powr ((antgain src_gs ref_gs (nat (fst (get_bl_order ! k))) (pol_i p)
                        (bands_of data ! f) (idx ! n)
                     + antgain src_gs ref_gs (nat (snd (get_bl_order ! k))) (pol_j p)
                        (bands_of data ! f) (idx ! n)) / 20)
      else 0)"

subsection \<open>Example inputs\<close>

text \<open>
  A dataset of two frequencies (1 and 2 GHz) and two times with unit visibilities, a
  delay phase record that knows 1 GHz only (its second frequency entry is zero) with
  zero phases, a geometry of 20 time samples and 15 antennas with zero angles and
  non-zero azimuths, and one whose angle is the antenna index.
\<close>

definition example_data :: dataset where
  "example_data =
     \<lparr>time = [0, 1], fghz = [1, 2],
      x = (\<lambda>f k p n. 1), x_shape = (2, 136, 4, 2),
      px = (\<lambda>b. 1), px_shape = (134 * 16 * 3, 2),
      py = (\<lambda>b. 1), py_shape = (134 * 16 * 3, 2)\<rparr>"

definition example_cal :: xy_cal where
  "example_cal = \<lparr>FGHz = [1, 0], XYphase = (\<lambda>i c. 0), XYphase_shape = (15, 2)\<rparr>"

definition example_azel :: azeldict where
  "example_azel =
     \<lparr>ParallacticAngle = (\<lambda>n c. 0), chi_shape = (20, 15),
      ActualAzimuth = (\<lambda>n c. 1), az_shape = (20, 15), Time = map real [0 ..< 20]\<rparr>"

definition example_ramp :: azeldict where
  "example_ramp =
     \<lparr>ParallacticAngle = (\<lambda>n c. real c), chi_shape = (20, 15),
      ActualAzimuth = (\<lambda>n c. 1), az_shape = (20, 15), Time = map real [0 ..< 20]\<rparr>"

text \<open>
  A gain state with two sample times and zero tables, the same with 6 dB more
  attenuation on antenna 0, polarization H, the index array of two time samples, and a
  dataset of one frequency (1.5 GHz, band index 1) and two times with unit visibilities.
\<close>

definition example_gs :: gain_state where
  "example_gs =
     \<lparr>times = [0, 1], h1 = (\<lambda>a t. 0), h2 = (\<lambda>a t. 0), v1 = (\<lambda>a t. 0), v2 = (\<lambda>a t. 0),
      dcmattn = (\<lambda>a q b. 0)\<rparr>"

definition example_gs6 :: gain_state where
  "example_gs6 = example_gs\<lparr>dcmattn := (\<lambda>a q b. if a = 0 \<and> q = 0 then 6 else 0)\<rparr>"

definition example_idx :: "nat list" where
  "example_idx = [0, 1]"

definition example_data1 :: dataset where
  "example_data1 =
     \<lparr>time = [0, 1], fghz = [3 / 2],
      x = (\<lambda>f k p n. 1), x_shape = (1, 136, 4, 2),
      px = (\<lambda>b. 1), px_shape = (134 * 16 * 3, 2),
      py = (\<lambda>b. 1), py_shape = (134 * 16 * 3, 2)\<rparr>"

section \<open>Properties\<close>

subsection \<open>get_bl_order\<close>

lemma get_bl_order_list: "get_bl_order =
 [(0, 0), (0, 1), (1, 1), (0, 2), (1, 2), (2, 2), (0, 3), (1, 3), (2, 3),
  (3, 3), (0, 4), (1, 4), (2, 4), (3, 4), (4, 4), (0, 5), (1, 5), (2, 5),
  (3, 5), (4, 5), (5, 5), (0, 6), (1, 6), (2, 6), (3, 6), (4, 6), (5, 6),
  (6, 6), (0, 7), (1, 7), (2, 7), (3, 7), (4, 7), (5, 7), (6, 7), (7, 7),
  (0, 8), (1, 8), (2, 8), (3, 8), (4, 8), (5, 8), (6, 8), (7, 8), (8, 8),
  (1, 9), (2, 9), (3, 9), (4, 9), (5, 9), (6, 9), (7, 9), (8, 9), (9, 9),
  (2, 10), (3, 10), (4, 10), (5, 10), (6, 10), (7, 10), (8, 10), (9, 10),
  (10, 10), (3, 11), (4, 11), (5, 11), (6, 11), (7, 11), (8, 11), (9, 11),
  (10, 11), (11, 11), (4, 12), (5, 12), (6, 12), (7, 12), (8, 12), (9, 12),
  (10, 12), (11, 12), (12, 12), (5, 13), (6, 13), (7, 13), (8, 13), (9, 13),
  (10, 13), (11, 13), (12, 13), (13, 13), (6, 14), (7, 14), (8, 14),
  (9, 14), (10, 14), (11, 14), (12, 14), (13, 14), (14, 14), (7, 15),
  (8, 15), (9, 15), (10, 15), (11, 15), (12, 15), (13, 15), (14, 15),
  (15, 15), (0, 9), (0, 10), (0, 11), (0, 12), (0, 13), (0, 14), (0, 15),
  (1, 10), (1, 11), (1, 12), (1, 13), (1, 14), (1, 15), (2, 11), (2, 12),
  (2, 13), (2, 14), (2, 15), (3, 12), (3, 13), (3, 14), (3, 15), (4, 13),
  (4, 14), (4, 15), (5, 14), (5, 15), (6, 15)]"
  by code_simp

lemma get_bl_order_length: "length get_bl_order = 136"
  by (simp add: get_bl_order_list)

lemma get_bl_order_distinct: "distinct get_bl_order"
  unfolding get_bl_order_list by code_simp

lemma upper_pairs_enum:
  "{(a, b). 0 \<le> a \<and> a \<le> b \<and> b < (16::int)} =
   set (concat (map (\<lambda>b. map (\<lambda>a. (a, b)) [0 .. b]) [0 .. 15]))"
  by force

lemma get_bl_order_cover:
  "set get_bl_order = {(a, b). 0 \<le> a \<and> a \<le> b \<and> b < 16}"
  unfolding upper_pairs_enum get_bl_order_list by code_simp

lemma get_bl_order_spec: "get_bl_order = spec_order 16"
  unfolding get_bl_order_list by code_simp

text \<open>
  C6. get_bl_order is a constant of the program (it takes no argument and reads no
  state, so every call returns the same value). It is the list that the algorithm of
  the specification produces for 16 antennas; it has exactly 136 entries, no entry
  occurs twice, and its entries are exactly the pairs \<open>(a, b)\<close> of antenna indices
  with \<open>0 \<le> a \<le> b < 16\<close>, that is every unordered pair, self-pairs included, once.
\<close>

theorem get_bl_order_136_distinct_pairs:
  "get_bl_order = spec_order 16
   \<and> length get_bl_order = 136
   \<and> distinct get_bl_order
   \<and> set get_bl_order = {(a, b). 0 \<le> a \<and> a \<le> b \<and> b < 16}"
  using get_bl_order_spec get_bl_order_length get_bl_order_distinct get_bl_order_cover
  by blast

subsection \<open>Loops and index arrays\<close>

lemma first_pos_nth: "distinct xs \<Longrightarrow> m < length xs \<Longrightarrow> first_pos xs (xs ! m) = m"
proof (induction xs arbitrary: m)
  case Nil
  then show ?case by simp
next
  case (Cons a xs)
  then show ?case by (cases m) auto
qed

lemma first_pos_mem: "v \<in> set xs \<Longrightarrow> first_pos xs v < length xs \<and> xs ! first_pos xs v = v"
  by (induction xs) auto

lemma scatter_rows:
  assumes "distinct idx" "n \<le> length idx"
  shows "fold (\<lambda>m Y. (\<lambda>f k' p' t.
                       if f = idx ! m \<and> k' = k \<and> p' = p \<and> t < nt
                       then g m t else Y f k' p' t)) [0 ..< n] X
         = (\<lambda>f k' p' t. if f \<in> set (take n idx) \<and> k' = k \<and> p' = p \<and> t < nt
                        then g (first_pos idx f) t else X f k' p' t)"
  using assms(2)
proof (induction n)
  case 0
  then show ?case by simp
next
  case (Suc n)
  then have n: "n < length idx" by simp
  have t: "set (take (Suc n) idx) = insert (idx ! n) (set (take n idx))"
    using n by (simp add: take_Suc_conv_app_nth)
  show ?case
    using Suc n first_pos_nth[OF assms(1) n]
    by (auto simp: fun_eq_iff t)
qed

lemma mul_rows_ok:
  assumes "distinct fidx1" "k < nbl" "p < npol" "\<forall>f \<in> set fidx1. f < nf"
  shows "mul_rows (nf, nbl, npol, nt) fidx1 k p fac X =
          (None, \<lambda>f k' p' n. if f \<in> set fidx1 \<and> k' = k \<and> p' = p \<and> n < nt
                              then X f k p n * fac (first_pos fidx1 f) else X f k' p' n)"
proof -
  have "fold (\<lambda>m Y. (\<lambda>f k' p' n.
                       if f = fidx1 ! m \<and> k' = k \<and> p' = p \<and> n < nt
                       then X (fidx1 ! m) k p n * fac m else Y f k' p' n))
                    [0 ..< length fidx1] X
       = (\<lambda>f k' p' n. if f \<in> set fidx1 \<and> k' = k \<and> p' = p \<and> n < nt
                              then X f k p n * fac (first_pos fidx1 f) else X f k' p' n)"
    using scatter_rows[OF assms(1), of "length fidx1" k p nt "\<lambda>m n. X (fidx1 ! m) k p n * fac m" X]
    by (auto simp: fun_eq_iff first_pos_mem)
  then show ?thesis using assms by (simp add: mul_rows_def)
qed

subsection \<open>The loops of unrot\<close>

lemma delay_phase_step:
  assumes "distinct fidx1" "k < nbl" "3 < npol" "\<forall>f \<in> set fidx1. f < nf"
    and "corrected bl \<longrightarrow> nat (fst bl) < rows \<and> nat (snd bl) < rows"
    and "\<forall>c \<in> set fidx2. c < cols"
  shows "delay_phase dph (rows, cols) fidx1 fidx2 (nf, nbl, npol, nt) (k, bl) X =
          (None, \<lambda>f k' p n. if k' = k \<and> corrected bl \<and> f \<in> set fidx1 \<and> n < nt
                             then X f k p n * xy_factor dph p bl (fidx2 ! first_pos fidx1 f)
                             else X f k' p n)"
proof (cases "corrected bl")
  case False
  then show ?thesis
    by (cases bl) (auto simp: delay_phase_def corrected_def)
next
  case True
  obtain i j where bl: "bl = (i, j)" by (cases bl)
  have c: "i < 14" "j < 14" "i \<noteq> j" "nat i < rows" "nat j < rows"
    using True assms(5) by (auto simp: corrected_def bl)
  have m1: "mul_rows (nf, nbl, npol, nt) fidx1 k (Suc 0) fac Y =
          (None, \<lambda>f k' p' n. if f \<in> set fidx1 \<and> k' = k \<and> p' = Suc 0 \<and> n < nt
                              then Y f k (Suc 0) n * fac (first_pos fidx1 f) else Y f k' p' n)" for fac Y
    using mul_rows_ok[OF assms(1,2) _ assms(4), of "Suc 0" npol nt fac Y] assms(3) by simp
  have m2: "mul_rows (nf, nbl, npol, nt) fidx1 k 2 fac Y =
          (None, \<lambda>f k' p' n. if f \<in> set fidx1 \<and> k' = k \<and> p' = 2 \<and> n < nt
                              then Y f k 2 n * fac (first_pos fidx1 f) else Y f k' p' n)" for fac Y
    using mul_rows_ok[OF assms(1,2) _ assms(4), of 2 npol nt fac Y] assms(3) by simp
  have m3: "mul_rows (nf, nbl, npol, nt) fidx1 k 3 fac Y =
          (None, \<lambda>f k' p' n. if f \<in> set fidx1 \<and> k' = k \<and> p' = 3 \<and> n < nt
                              then Y f k 3 n * fac (first_pos fidx1 f) else Y f k' p' n)" for fac Y
    using mul_rows_ok[OF assms(1,2) _ assms(4), of 3 npol nt fac Y] assms(3) by simp
  show ?thesis
    unfolding delay_phase_def bl
    using c assms(6)
    by (simp add: m1 m2 m3 Let_def)
       (auto simp: fun_eq_iff xy_factor_def corrected_def)
qed

lemma delay_phase_loop:
  assumes "distinct fidx1" "m + length bls \<le> nbl" "3 < npol" "\<forall>f \<in> set fidx1. f < nf"
    and "\<forall>bl \<in> set bls. corrected bl \<longrightarrow> nat (fst bl) < rows \<and> nat (snd bl) < rows"
    and "\<forall>c \<in> set fidx2. c < cols"
  shows "for_each (delay_phase dph (rows, cols) fidx1 fidx2 (nf, nbl, npol, nt)) (enumerate m bls) X =
          (None, \<lambda>f k p n. if m \<le> k \<and> k < m + length bls \<and> corrected (bls ! (k - m))
                                \<and> f \<in> set fidx1 \<and> n < nt
                             then X f k p n * xy_factor dph p (bls ! (k - m)) (fidx2 ! first_pos fidx1 f)
                             else X f k p n)"
  using assms(2,5)
proof (induction bls arbitrary: m X)
  case Nil
  then show ?case by (auto simp: fun_eq_iff)
next
  case (Cons bl bls)
  have k: "m < nbl" using Cons.prems by simp
  have b: "corrected bl \<longrightarrow> nat (fst bl) < rows \<and> nat (snd bl) < rows"
    using Cons.prems by simp
  have r: "Suc m + length bls \<le> nbl"
          "\<forall>bl \<in> set bls. corrected bl \<longrightarrow> nat (fst bl) < rows \<and> nat (snd bl) < rows"
    using Cons.prems by simp_all
  show ?case
    apply (simp add: delay_phase_step[OF assms(1) k assms(3,4) b assms(6)] Cons.IH[OF r])
    apply (intro ext)
    apply (auto simp: nth_Cons' Suc_diff_le)
    done
qed

lemma feed_rotation_step:
  assumes "n < rows" "n < nt" "k < nbl" "3 < npol"
    and "corrected bl \<longrightarrow> nat (fst bl) < cols \<and> nat (snd bl) < cols"
  shows "feed_rotation chi (rows, cols) D (nf, nbl, npol, nt) n (k, bl) C =
          (None, \<lambda>f k' p n'. if k' = k \<and> n' = n \<and> corrected bl \<and> f < nf \<and> p < 4
                              then rot4 (dchi_of chi n bl) (\<lambda>q. D f k q n) p
                              else C f k' p n')"
proof (cases "corrected bl")
  case False
  then show ?thesis
    by (cases bl) (auto simp: feed_rotation_def corrected_def)
next
  case True
  obtain i j where bl: "bl = (i, j)" by (cases bl)
  have c: "i < 14" "j < 14" "i \<noteq> j" "nat i < cols" "nat j < cols"
    using True assms(5) by (auto simp: corrected_def bl)
  show ?thesis
    unfolding feed_rotation_def bl
    using c assms(1-4)
    by (simp add: Let_def)
       (auto simp: fun_eq_iff set_col_def rot4_def dchi_of_def corrected_def)
qed

lemma feed_rotation_inner:
  assumes "n < rows" "n < nt" "m + length bls \<le> nbl" "3 < npol"
    and "\<forall>bl \<in> set bls. corrected bl \<longrightarrow> nat (fst bl) < cols \<and> nat (snd bl) < cols"
  shows "for_each (feed_rotation chi (rows, cols) D (nf, nbl, npol, nt) n) (enumerate m bls) C =
          (None, \<lambda>f k p n'. if m \<le> k \<and> k < m + length bls \<and> n' = n \<and> corrected (bls ! (k - m))
                                 \<and> f < nf \<and> p < 4
                              then rot4 (dchi_of chi n (bls ! (k - m))) (\<lambda>q. D f k q n) p
                              else C f k p n')"
  using assms(3,5)
proof (induction bls arbitrary: m C)
  case Nil
  then show ?case by (auto simp: fun_eq_iff)
next
  case (Cons bl bls)
  have k: "m < nbl" using Cons.prems by simp
  have b: "corrected bl \<longrightarrow> nat (fst bl) < cols \<and> nat (snd bl) < cols"
    using Cons.prems by simp
  have r: "Suc m + length bls \<le> nbl"
          "\<forall>bl \<in> set bls. corrected bl \<longrightarrow> nat (fst bl) < cols \<and> nat (snd bl) < cols"
    using Cons.prems by simp_all
  show ?case
    apply (simp add: feed_rotation_step[OF assms(1,2) k assms(4) b] Cons.IH[OF r])
    apply (intro ext)
    apply (auto simp: nth_Cons' Suc_diff_le)
    done
qed

lemma for_each_snoc:
  "for_each body (vs @ [v]) s =
     (case for_each body vs s of (Some e, s') \<Rightarrow> (Some e, s') | (None, s') \<Rightarrow> body v s')"
proof (induction vs arbitrary: s)
  case Nil
  show ?case by (cases "body v s") (auto split: option.splits)
next
  case (Cons a vs)
  show ?case
    by (cases "body a s") (auto simp: Cons split: option.splits)
qed

lemma feed_rotation_outer:
  assumes "N \<le> rows" "N \<le> nt" "length bls \<le> nbl" "3 < npol"
    and "\<forall>bl \<in> set bls. corrected bl \<longrightarrow> nat (fst bl) < cols \<and> nat (snd bl) < cols"
  shows "for_each (\<lambda>n. for_each (feed_rotation chi (rows, cols) D (nf, nbl, npol, nt) n)
                       (enumerate 0 bls)) [0 ..< N] C =
          (None, \<lambda>f k p n. if k < length bls \<and> n < N \<and> corrected (bls ! k) \<and> f < nf \<and> p < 4
                             then rot4 (dchi_of chi n (bls ! k)) (\<lambda>q. D f k q n) p
                             else C f k p n)"
  using assms(1,2)
proof (induction N)
  case 0
  then show ?case by simp
next
  case (Suc N)
  have n: "N < rows" "N < nt" using Suc.prems by simp_all
  have z: "0 + length bls \<le> nbl" using assms(3) by simp
  have ih: "for_each (\<lambda>n. for_each (feed_rotation chi (rows, cols) D (nf, nbl, npol, nt) n)
                       (enumerate 0 bls)) [0 ..< N] C =
          (None, \<lambda>f k p n. if k < length bls \<and> n < N \<and> corrected (bls ! k) \<and> f < nf \<and> p < 4
                             then rot4 (dchi_of chi n (bls ! k)) (\<lambda>q. D f k q n) p
                             else C f k p n)"
    using Suc by simp
  show ?case
    apply (simp add: for_each_snoc ih feed_rotation_inner[OF n z assms(4,5)])
    apply (intro ext)
    apply (auto simp: less_Suc_eq)
    done
qed

lemma sub_chi13_ok:
  assumes "chi_shape a = (rows, cols)" "i < cols" "13 < cols"
  shows "sub_chi13 i a = (None, a\<lparr>ParallacticAngle := (\<lambda>n c.
            if n < rows \<and> c = i then ParallacticAngle a n i - ParallacticAngle a n 13
            else ParallacticAngle a n c)\<rparr>)"
  using assms by (simp add: sub_chi13_def Let_def)

lemma sub_chi13_loop:
  assumes "chi_shape a = (rows, cols)" "13 < cols"
  shows "for_each sub_chi13 [8, 9, 10, 12, 13] a =
          (None, a\<lparr>ParallacticAngle := (\<lambda>n c.
             if n < rows \<and> c \<in> {8, 9, 10, 12} then ParallacticAngle a n c - ParallacticAngle a n 13
             else if n < rows \<and> c = 13 then 0
             else ParallacticAngle a n c)\<rparr>)"
proof -
  have c: "8 < cols" "9 < cols" "10 < cols" "12 < cols" using assms(2) by simp_all
  have s: "chi_shape (b\<lparr>ParallacticAngle := g\<rparr>) = (rows, cols)" if "chi_shape b = (rows, cols)" for b g
    using that by simp
  show ?thesis
    apply (simp add: sub_chi13_ok[where rows=rows and cols=cols] assms c)
    apply (rule arg_cong[where f="\<lambda>g. a\<lparr>ParallacticAngle := g\<rparr>"])
    apply (intro ext)
    apply auto
    done
qed

lemma common_val_idx_fst:
  "distinct (fst (common_val_idx a1 a2 p)) \<and> (\<forall>f \<in> set (fst (common_val_idx a1 a2 p)). f < length a1)"
  by (simp add: common_val_idx_def Let_def)

lemma common_val_idx_snd:
  "\<forall>c \<in> set (snd (common_val_idx a1 a2 p)). c < length a2"
  using first_pos_mem[of _ "map (at_precision p) a2"]
  by (auto simp: common_val_idx_def Let_def)

lemma common_val_idx_length:
  "length (snd (common_val_idx a1 a2 p)) = length (fst (common_val_idx a1 a2 p))"
  by (simp add: common_val_idx_def Let_def)

lemma nonzero_freqs_bound: "\<forall>g \<in> set (nonzero_freqs cal). g < length (FGHz cal)"
  by (simp add: nonzero_freqs_def)

lemma chi_rel13_frame:
  "az_shape (chi_rel13 a) = az_shape a" "Time (chi_rel13 a) = Time a"
  "ActualAzimuth (chi_rel13 a) = ActualAzimuth a" "chi_shape (chi_rel13 a) = chi_shape a"
  "good_azimuth (chi_rel13 a) = good_azimuth a"
  by (simp_all add: chi_rel13_def good_azimuth_def)

lemma geometry_tidx_ok:
  assumes "0 < fst (az_shape a)" "good_azimuth a \<noteq> []"
    "list_all (\<lambda>g. g < length (Time a)) (good_azimuth a)"
  shows "\<exists>tidx. geometry_tidx (chi_rel13 a) data = Inr tidx"
  using assms by (simp add: geometry_tidx_def nearest_val_idx_def chi_rel13_frame)

lemma unrot_body_ok:
  assumes "unrot_shapes_ok cal (the_azeldict sql_info azeldict) data"
  shows "unrot_body cal sql_info data azeldict =
          \<lparr>returned = Inr (data\<lparr>x := rotated (ParallacticAngle (chi_rel13 (the_azeldict sql_info azeldict)))
                                       (fst (x_shape data)) (snd (snd (snd (x_shape data))))
                                       (delay_corrected cal data)\<rparr>),
           data_after = data\<lparr>x := delay_corrected cal data\<rparr>,
           azeldict_after = map_option chi_rel13 azeldict\<rparr>"
proof -
  obtain nf nbl npol nt where sh: "x_shape data = (nf, nbl, npol, nt)" by (metis prod_cases4)
  obtain rows cols where xs: "XYphase_shape cal = (rows, cols)" by (cases "XYphase_shape cal")
  obtain crows ccols where cs: "chi_shape (the_azeldict sql_info azeldict) = (crows, ccols)"
    by (cases "chi_shape (the_azeldict sql_info azeldict)")
  have ok: "time data \<noteq> []" "length (fghz data) \<le> nf" "136 \<le> nbl" "4 \<le> npol" "14 \<le> rows"
    "length (FGHz cal) \<le> cols" "14 \<le> ccols" "nt \<le> crows"
    "0 < fst (az_shape (the_azeldict sql_info azeldict))"
    "good_azimuth (the_azeldict sql_info azeldict) \<noteq> []"
    "list_all (\<lambda>g. g < length (Time (the_azeldict sql_info azeldict)))
       (good_azimuth (the_azeldict sql_info azeldict))"
    using assms by (simp_all add: unrot_shapes_ok_def sh xs cs)
  let ?az = "the_azeldict sql_info azeldict"
  obtain tidx where gt: "geometry_tidx (chi_rel13 ?az) data = Inr tidx"
    using geometry_tidx_ok[OF ok(9,10,11)] by blast
  let ?good = "nonzero_freqs cal"
  let ?F = "common_val_idx (fghz data) (map (\<lambda>g. FGHz cal ! g) ?good) 4"
  have chi: "for_each sub_chi13 [8, 9, 10, 12, 13] ?az = (None, chi_rel13 ?az)"
  proof -
    have "13 < ccols" using ok(7) by simp
    from sub_chi13_loop[OF cs this] show ?thesis
      unfolding chi_rel13_def cs fst_conv .
  qed
  have good: "\<forall>g \<in> set ?good. g < cols"
    using nonzero_freqs_bound[of cal] ok(6) by auto
  have d1: "distinct (fst ?F)" and d2: "\<forall>f \<in> set (fst ?F). f < nf"
    using common_val_idx_fst[of "fghz data" "map (\<lambda>g. FGHz cal ! g) ?good" 4] ok(2) by auto
  have d3: "\<forall>c \<in> set (snd ?F). c < length ?good"
    using common_val_idx_snd[of "fghz data" "map (\<lambda>g. FGHz cal ! g) ?good" 4] by simp
  have b1: "\<forall>bl \<in> set get_bl_order. corrected bl \<longrightarrow> nat (fst bl) < rows \<and> nat (snd bl) < rows"
    using ok(5) by (auto simp: corrected_def)
  have b2: "\<forall>bl \<in> set get_bl_order. corrected bl \<longrightarrow> nat (fst bl) < ccols \<and> nat (snd bl) < ccols"
    using ok(7) by (auto simp: corrected_def)
  have l1: "0 + length get_bl_order \<le> nbl" and l2: "length get_bl_order \<le> nbl"
    using ok(3) by (simp_all add: get_bl_order_length)
  have p: "3 < npol" using ok(4) by simp
  have dl: "for_each (delay_phase (\<lambda>i m. XYphase cal i (?good ! m)) (rows, length ?good) (fst ?F) (snd ?F) (nf, nbl, npol, nt))
              (enumerate 0 get_bl_order) (x data) = (None, delay_corrected cal data)"
    by (simp add: delay_phase_loop[OF d1 l1 p d2 b1 d3] delay_corrected_def fidx_of_def dph_of_def
                  get_bl_order_length sh cong: if_cong)
  have cs': "chi_shape (chi_rel13 ?az) = (crows, ccols)" by (simp add: chi_rel13_def cs)
  have rt: "for_each (\<lambda>n. for_each (feed_rotation (ParallacticAngle (chi_rel13 ?az)) (crows, ccols)
                        (delay_corrected cal data) (nf, nbl, npol, nt) n) (enumerate 0 get_bl_order))
              [0 ..< nt] (delay_corrected cal data)
            = (None, rotated (ParallacticAngle (chi_rel13 ?az)) nf nt (delay_corrected cal data))"
    using feed_rotation_outer[OF ok(8) le_refl l2 p b2]
    by (simp add: rotated_def get_bl_order_length cong: if_cong)
  have seen: "(case azeldict of None \<Rightarrow> None
               | Some u \<Rightarrow> Some (snd (for_each sub_chi13 [8, 9, 10, 12, 13] ?az)))
              = map_option chi_rel13 azeldict"
    using chi by (cases azeldict) (simp_all add: the_azeldict_def del: for_each.simps)
  show ?thesis
    unfolding unrot_body_def
    using ok(1) good
    by (simp add: Let_def case_prod_beta chi gt xs sh dl cs' rt seen del: for_each.simps)
qed

subsection \<open>The example inputs\<close>

lemma upt2: "[0 ..< 2] = [0, 1]" by (simp add: upt_rec)

lemma ex_nonzero: "nonzero_freqs example_cal = [0]"
  by (simp add: nonzero_freqs_def example_cal_def upt2)

lemma ex_common: "common_val_idx [1, 2] [1] 4 = ([0], [0])"
  by (simp add: common_val_idx_def Let_def at_precision_def upt2)

lemma ex_fidx: "fidx_of example_cal example_data = ([0], [0])"
proof -
  have "fidx_of example_cal example_data = common_val_idx [1, 2] [1] 4"
    unfolding fidx_of_def ex_nonzero by (simp add: example_data_def example_cal_def)
  then show ?thesis by (simp only: ex_common)
qed

lemma ex_missing: "missing example_cal example_data = [1]"
proof -
  have "missing example_cal example_data =
        filter (\<lambda>m. m \<notin> set (fst (fidx_of example_cal example_data))) [0 ..< length (fghz example_data)]"
    by (simp add: missing_def fidx_of_def case_prod_beta Let_def)
  also have "\<dots> = [1]"
    unfolding ex_fidx by (simp add: example_data_def upt2)
  finally show ?thesis .
qed

lemma ex_good_azimuth: "good_azimuth example_azel = [0 ..< 15]"
  by (simp add: good_azimuth_def example_azel_def)

lemma ex_ok: "unrot_shapes_ok example_cal (the_azeldict example_azel None) example_data"
proof -
  have "list_all (\<lambda>g. g < length (Time example_azel)) [0 ..< 15]"
    by (simp add: list_all_iff example_azel_def)
  moreover have "[0 ..< 15] \<noteq> ([] :: nat list)" by simp
  ultimately show ?thesis
    unfolding unrot_shapes_ok_def the_azeldict_def option.case ex_good_azimuth
    by (simp add: example_cal_def example_azel_def example_data_def)
qed

lemma exp_i_half_pi: "exp (\<i> * complex_of_real pi / 2) = \<i>"
  using cis_pi_half by (simp add: cis_conv_exp)

lemma exp_i_neg_half_pi: "exp (- (\<i> * complex_of_real pi / 2)) = - \<i>"
  using cis_minus_pi_half by (simp add: cis_conv_exp)

lemma lobe_0: "lobe 0 = 0"
proof -
  have "\<lceil>(0 - pi) / (2 * pi)\<rceil> = (0::int)" by (simp add: ceiling_eq_iff)
  then show ?thesis by (simp add: lobe_def)
qed

lemma bl1: "get_bl_order ! Suc 0 = (0, 1)" by (simp add: get_bl_order_list)

lemma ex_delay: "delay_corrected example_cal example_data 0 1 2 0 = \<i>"
proof -
  have "delay_corrected example_cal example_data 0 1 2 0 =
        x example_data 0 1 2 0 * xy_factor (dph_of example_cal) 2 (0, 1) 0"
    unfolding delay_corrected_def ex_fidx
    by (simp add: bl1 corrected_def example_data_def)
  also have "\<dots> = \<i>"
    by (simp add: xy_factor_def dph_of_def example_cal_def example_data_def exp_i_half_pi)
  finally show ?thesis .
qed

subsection \<open>unrot as a whole\<close>

text \<open>
  Whatever the inputs, unrot does not return a dataset: either an earlier line raises,
  or line 216 does.
\<close>

lemma unrot_never_returns: "returned (unrot cal sql_info data azeldict) \<noteq> Inr cdata"
  by (simp add: unrot_def Let_def setitem_ndarray_key_def split: sum.splits)

lemma unrot_ok:
  assumes "unrot_shapes_ok cal (the_azeldict sql_info azeldict) data"
  shows "unrot cal sql_info data azeldict =
          \<lparr>returned = Inl TypeError,
           data_after = data\<lparr>x := delay_corrected cal data\<rparr>,
           azeldict_after = map_option chi_rel13 azeldict\<rparr>"
  by (simp add: unrot_def unrot_body_ok[OF assms] setitem_ndarray_key_def)

lemma unrot_body_azeldict:
  assumes "time data \<noteq> []" "13 < snd (chi_shape a)"
  shows "azeldict_after (unrot_body cal sql_info data (Some a)) = Some (chi_rel13 a)"
proof -
  obtain rows cols where cs: "chi_shape a = (rows, cols)" by (cases "chi_shape a")
  have c: "13 < cols" using assms(2) cs by simp
  have chi: "for_each sub_chi13 [8, 9, 10, 12, 13] a = (None, chi_rel13 a)"
    using sub_chi13_loop[OF cs c] unfolding chi_rel13_def cs fst_conv .
  show ?thesis
    unfolding unrot_body_def
    using assms(1)
    by (simp add: the_azeldict_def chi Let_def raised_def case_prod_beta
             del: for_each.simps split: option.splits sum.splits)
qed

lemma unrot_azeldict:
  assumes "time data \<noteq> []" "13 < snd (chi_shape a)"
  shows "azeldict_after (unrot cal sql_info data (Some a)) = Some (chi_rel13 a)"
  using unrot_body_azeldict[OF assms, of cal sql_info]
  by (simp add: unrot_def Let_def split: sum.splits)

subsection \<open>Feed rotation\<close>

lemma cos_sin_sq_complex:
  "complex_of_real (cos d) * complex_of_real (cos d) + complex_of_real (sin d) * complex_of_real (sin d) = 1"
proof -
  have "cos d * cos d + sin d * sin d = 1"
    using sin_cos_squared_add2[of d] by (simp add: power2_eq_square)
  then have "complex_of_real (cos d * cos d + sin d * sin d) = 1" by simp
  then show ?thesis by (simp only: of_real_add of_real_mult)
qed

lemma rot4_inverse: "rot4 (- d) (rot4 d v) p = v p"
proof -
  let ?c = "complex_of_real (cos d)" and ?s = "complex_of_real (sin d)"
  have e: "a * (?c * ?c) + a * (?s * ?s) = a" for a
    using cos_sin_sq_complex[of d] by (metis distrib_left mult.right_neutral)
  have "(v 0 * ?c + v 3 * ?s) * ?c - (v 3 * ?c - v 0 * ?s) * ?s = v 0 * (?c * ?c) + v 0 * (?s * ?s)"
       "(v 1 * ?c - v 2 * ?s) * ?c + (v 2 * ?c + v 1 * ?s) * ?s = v 1 * (?c * ?c) + v 1 * (?s * ?s)"
       "(v 2 * ?c + v 1 * ?s) * ?c - (v 1 * ?c - v 2 * ?s) * ?s = v 2 * (?c * ?c) + v 2 * (?s * ?s)"
       "(v 3 * ?c - v 0 * ?s) * ?c + (v 0 * ?c + v 3 * ?s) * ?s = v 3 * (?c * ?c) + v 3 * (?s * ?s)"
    by (simp_all add: algebra_simps)
  then show ?thesis
    by (simp add: rot4_def e)
qed

lemma dchi_of_neg: "dchi_of (\<lambda>n a. - chi n a) n bl = - dchi_of chi n bl"
  by (simp add: dchi_of_def)

lemma rotated_inverse: "rotated (\<lambda>n a. - chi n a) nf nt (rotated chi nf nt D) = D"
proof (intro ext)
  fix f k p n
  show "rotated (\<lambda>n a. - chi n a) nf nt (rotated chi nf nt D) f k p n = D f k p n"
  proof (cases "k < 136 \<and> n < nt \<and> corrected (get_bl_order ! k) \<and> f < nf \<and> p < 4")
    case False
    then show ?thesis by (auto simp: rotated_def)
  next
    case True
    then have "rotated (\<lambda>n a. - chi n a) nf nt (rotated chi nf nt D) f k p n =
          rot4 (- dchi_of chi n (get_bl_order ! k))
               (rot4 (dchi_of chi n (get_bl_order ! k)) (\<lambda>q. D f k q n)) p"
      unfolding rotated_def dchi_of_neg
      by (simp add: rot4_def cong: if_cong)
    then show ?thesis by (simp only: rot4_inverse)
  qed
qed

lemma rotation_loop:
  assumes "nt \<le> rows" "14 \<le> cols" "136 \<le> nbl" "4 \<le> npol"
  shows "for_each (\<lambda>n. for_each (feed_rotation chi (rows, cols) D (nf, nbl, npol, nt) n)
                        (enumerate 0 get_bl_order)) [0 ..< nt] D
         = (None, rotated chi nf nt D)"
proof -
  have b: "\<forall>bl \<in> set get_bl_order. corrected bl \<longrightarrow> nat (fst bl) < cols \<and> nat (snd bl) < cols"
    using assms(2) by (auto simp: corrected_def)
  have l: "length get_bl_order \<le> nbl" using assms(3) by (simp add: get_bl_order_length)
  have p: "3 < npol" using assms(4) by simp
  show ?thesis
    using feed_rotation_outer[OF assms(1) le_refl l p b]
    by (simp add: rotated_def get_bl_order_length cong: if_cong)
qed

lemma rotated_linear:
  "rotated chi nf nt (\<lambda>f k p n. a * D1 f k p n + b * D2 f k p n)
     = (\<lambda>f k p n. a * rotated chi nf nt D1 f k p n + b * rotated chi nf nt D2 f k p n)"
  by (intro ext) (simp add: rotated_def rot4_def algebra_simps)

lemma rotated_cell:
  assumes "k < 136" "get_bl_order ! k = (i, j)"
  shows "i < 14 \<and> j < 14 \<and> i \<noteq> j \<and> f < nf \<and> n < nt \<longrightarrow>
           rotated chi nf nt D f k 0 n
             = D f k 0 n * complex_of_real (cos (chi n (nat i) - chi n (nat j)))
               + D f k 3 n * complex_of_real (sin (chi n (nat i) - chi n (nat j)))
         \<and> rotated chi nf nt D f k 1 n
             = D f k 1 n * complex_of_real (cos (chi n (nat i) - chi n (nat j)))
               - D f k 2 n * complex_of_real (sin (chi n (nat i) - chi n (nat j)))
         \<and> rotated chi nf nt D f k 2 n
             = D f k 2 n * complex_of_real (cos (chi n (nat i) - chi n (nat j)))
               + D f k 1 n * complex_of_real (sin (chi n (nat i) - chi n (nat j)))
         \<and> rotated chi nf nt D f k 3 n
             = D f k 3 n * complex_of_real (cos (chi n (nat i) - chi n (nat j)))
               - D f k 0 n * complex_of_real (sin (chi n (nat i) - chi n (nat j)))"
    and "\<not> (i < 14 \<and> j < 14 \<and> i \<noteq> j) \<longrightarrow> rotated chi nf nt D f k p n = D f k p n"
  using assms by (simp_all add: rotated_def corrected_def rot4_def dchi_of_def)

text \<open>
  C9. The feed-rotation loop of unrot (lines 204-214), run on any array \<open>D\<close> with
  angles \<open>chi\<close>, ends without an exception in an array \<open>C\<close> in which, on every baseline
  \<open>(i, j)\<close> it corrects, at every frequency and time sample and with
  \<open>dchi = chi[n, i] - chi[n, j]\<close>, product 0 is \<open>x0 * cos dchi + x3 * sin dchi\<close>,
  product 2 is \<open>x2 * cos dchi + x1 * sin dchi\<close>, product 3 is
  \<open>x3 * cos dchi - x0 * sin dchi\<close> and product 1 is \<open>x1 * cos dchi - x2 * sin dchi\<close>,
  the \<open>x\<close> on the right being those of \<open>D\<close>; the baselines it does not correct keep
  their values. The transform is linear: on \<open>a * D + b * D2\<close> the loop ends in
  \<open>a * C + b * C2\<close>. It is invertible: run again on \<open>C\<close> with every angle negated (so
  that every \<open>dchi\<close> is negated) it ends in \<open>D\<close>. The arithmetic is exact (real and
  complex numbers), not floating point.
\<close>

theorem feed_rotation_round_trip:
  fixes chi :: "nat \<Rightarrow> nat \<Rightarrow> real" and D :: "complex arr4"
    and rows cols nf nbl npol nt :: nat
  defines "loop \<equiv> (\<lambda>ch E. for_each (\<lambda>n. for_each (feed_rotation ch (rows, cols) E (nf, nbl, npol, nt) n)
                        (enumerate 0 get_bl_order)) [0 ..< nt] E)"
    and "dchi \<equiv> (\<lambda>n i j. chi n (nat i) - chi n (nat j))"
  assumes "nt \<le> rows" and "14 \<le> cols" and "136 \<le> nbl" and "4 \<le> npol"
  shows "\<exists>C. loop chi D = (None, C)
      \<and> (\<forall>k i j f n. k < 136 \<and> get_bl_order ! k = (i, j) \<and> i < 14 \<and> j < 14 \<and> i \<noteq> j
                      \<and> f < nf \<and> n < nt \<longrightarrow>
            C f k 0 n = D f k 0 n * complex_of_real (cos (dchi n i j))
                        + D f k 3 n * complex_of_real (sin (dchi n i j))
          \<and> C f k 2 n = D f k 2 n * complex_of_real (cos (dchi n i j))
                        + D f k 1 n * complex_of_real (sin (dchi n i j))
          \<and> C f k 3 n = D f k 3 n * complex_of_real (cos (dchi n i j))
                        - D f k 0 n * complex_of_real (sin (dchi n i j))
          \<and> C f k 1 n = D f k 1 n * complex_of_real (cos (dchi n i j))
                        - D f k 2 n * complex_of_real (sin (dchi n i j)))
      \<and> (\<forall>k i j f p n. k < 136 \<and> get_bl_order ! k = (i, j) \<and> \<not> (i < 14 \<and> j < 14 \<and> i \<noteq> j) \<longrightarrow>
            C f k p n = D f k p n)
      \<and> (\<forall>a b D2 C2. loop chi D2 = (None, C2) \<longrightarrow>
            loop chi (\<lambda>f k p n. a * D f k p n + b * D2 f k p n)
              = (None, \<lambda>f k p n. a * C f k p n + b * C2 f k p n))
      \<and> loop (\<lambda>n a. - chi n a) C = (None, D)"
proof -
  have l: "loop ch E = (None, rotated ch nf nt E)" for ch E
    unfolding loop_def by (rule rotation_loop[OF assms(3-6)])
  show ?thesis
    unfolding l dchi_def
    apply (intro exI[of _ "rotated chi nf nt D"] conjI)
        apply (rule refl)
       apply (use rotated_cell(1) in blast)
      apply (use rotated_cell(2) in blast)
     apply (simp add: rotated_linear)
    apply (simp add: rotated_inverse)
    done
qed

text \<open>
  A quarter turn on baseline (0, 1), with the products 1, 2, 3, 4 at every cell: the
  loop gives 4, -3, 2, -1 for the products 0, 1, 2, 3; the auto-correlation baseline 0
  keeps its values; the negated angles bring the array back.
\<close>

theorem feed_rotation_round_trip_witness:
  "\<exists>C. for_each (\<lambda>n. for_each (feed_rotation (\<lambda>n a. if a = 0 then pi / 2 else 0) (2, 15)
                          (\<lambda>f k p n. of_nat (Suc p)) (1, 136, 4, 2) n)
                        (enumerate 0 get_bl_order)) [0 ..< 2] (\<lambda>f k p n. of_nat (Suc p)) = (None, C)
        \<and> C 0 1 0 0 = 4 \<and> C 0 1 1 0 = - 3 \<and> C 0 1 2 0 = 2 \<and> C 0 1 3 0 = - 1
        \<and> C 0 0 1 0 = 2
        \<and> for_each (\<lambda>n. for_each (feed_rotation (\<lambda>n a. - (if a = 0 then pi / 2 else 0)) (2, 15) C (1, 136, 4, 2) n)
                        (enumerate 0 get_bl_order)) [0 ..< 2] C = (None, \<lambda>f k p n. of_nat (Suc p))"
proof -
  have b0: "get_bl_order ! 0 = (0, 0)" by (simp add: get_bl_order_list)
  have s: "(2::nat) \<le> 2" "(14::nat) \<le> 15" "(136::nat) \<le> 136" "(4::nat) \<le> 4" by simp_all
  from feed_rotation_round_trip[OF s, of "\<lambda>n a. if a = 0 then pi / 2 else 0"
      "\<lambda>f k p n. of_nat (Suc p)" 1]
  show ?thesis
    apply (elim exE conjE)
    subgoal premises p for C
      apply (rule exI[of _ C])
      using p(1) p(5) p(2)[rule_format, of "Suc 0" 0 1 0 0] p(3)[rule_format, of 0 0 0 0 "Suc 0" 0] bl1 b0
      apply (simp del: for_each.simps)
      done
    done
qed

subsection \<open>Delay phase\<close>

text \<open>
  C8. After unrot has run on inputs on which no line before line 216 raises (lines
  176-177 included), the caller's \<open>x\<close> array is the input
  array after the delay-phase loop (lines 192-200). For entry \<open>k\<close> of the baseline
  order, the pair \<open>(i, j)\<close>: when \<open>i < 14\<close>, \<open>j < 14\<close> and \<open>i \<noteq> j\<close>, every matched
  frequency \<open>fidx1 ! m\<close> has, at every time, product 1 multiplied by
  \<open>exp (\<i> * lobe (dph i - dph j))\<close>, product 2 by \<open>exp (\<i> * (- dph j + pi / 2))\<close> and
  product 3 by \<open>exp (\<i> * (dph i - pi / 2))\<close>, the phases taken at the matching column
  \<open>fidx2 ! m\<close>; product 0 is untouched, and so is every frequency that has no match.
  When \<open>i = j\<close> or one of them is 14 or 15, nothing of the baseline changes.
\<close>

theorem unrot_delay_phase_factors:
  assumes ok: "unrot_shapes_ok cal (the_azeldict sql_info azeldict) data"
    and fidx: "common_val_idx (fghz data) (map (\<lambda>g. FGHz cal ! g) (nonzero_freqs cal)) 4 = (fidx1, fidx2)"
    and sh: "x_shape data = (nf, nbl, npol, nt)"
    and k: "k < 136" and bl: "get_bl_order ! k = (i, j)"
  defines "dph \<equiv> (\<lambda>a m. XYphase cal (nat a) (nonzero_freqs cal ! m))"
    and "x' \<equiv> x (data_after (unrot cal sql_info data azeldict))"
  shows "(i < 14 \<and> j < 14 \<and> i \<noteq> j \<longrightarrow>
            (\<forall>m < length fidx1. \<forall>n < nt.
                 x' (fidx1 ! m) k 1 n = x data (fidx1 ! m) k 1 n
                    * exp (\<i> * complex_of_real (lobe (dph i (fidx2 ! m) - dph j (fidx2 ! m))))
               \<and> x' (fidx1 ! m) k 2 n = x data (fidx1 ! m) k 2 n
                    * exp (\<i> * complex_of_real (- dph j (fidx2 ! m) + pi / 2))
               \<and> x' (fidx1 ! m) k 3 n = x data (fidx1 ! m) k 3 n
                    * exp (\<i> * complex_of_real (dph i (fidx2 ! m) - pi / 2)))
          \<and> (\<forall>f n. x' f k 0 n = x data f k 0 n)
          \<and> (\<forall>f p n. f \<notin> set fidx1 \<longrightarrow> x' f k p n = x data f k p n))
       \<and> (\<not> (i < 14 \<and> j < 14 \<and> i \<noteq> j) \<longrightarrow> (\<forall>f p n. x' f k p n = x data f k p n))"
proof -
  have F: "fidx_of cal data = (fidx1, fidx2)" using fidx by (simp add: fidx_of_def)
  have xe: "x' = delay_corrected cal data"
    by (simp add: x'_def unrot_ok[OF ok])
  have d: "distinct fidx1"
    using common_val_idx_fst[of "fghz data" "map (\<lambda>g. FGHz cal ! g) (nonzero_freqs cal)" 4] fidx by simp
  have c: "corrected (i, j) = (i < 14 \<and> j < 14 \<and> i \<noteq> j)" by (simp add: corrected_def)
  have pos: "first_pos fidx1 (fidx1 ! m) = m" if "m < length fidx1" for m
    using first_pos_nth[OF d that] .
  show ?thesis
    unfolding xe delay_corrected_def F fst_conv snd_conv sh bl c
    using k
    by (auto simp: xy_factor_def dph_def dph_of_def pos)
qed

text \<open>
  On the example: baseline 1 is (0, 1); with zero phases its product 1 keeps the value
  1, product 2 becomes \<open>\<i>\<close>, product 3 becomes \<open>- \<i>\<close>; the unmatched frequency 1 and the
  auto-correlation baseline 0 keep their values.
\<close>

theorem unrot_delay_phase_factors_witness:
  "x (data_after (unrot example_cal example_azel example_data None)) 0 1 1 0 = 1
   \<and> x (data_after (unrot example_cal example_azel example_data None)) 0 1 2 0 = \<i>
   \<and> x (data_after (unrot example_cal example_azel example_data None)) 0 1 3 0 = - \<i>
   \<and> x (data_after (unrot example_cal example_azel example_data None)) 0 1 0 0 = 1
   \<and> x (data_after (unrot example_cal example_azel example_data None)) 1 1 2 0 = 1
   \<and> x (data_after (unrot example_cal example_azel example_data None)) 0 0 2 0 = 1"
proof -
  have f: "common_val_idx (fghz example_data)
             (map (\<lambda>g. FGHz example_cal ! g) (nonzero_freqs example_cal)) 4 = ([0], [0])"
    using ex_fidx by (simp add: fidx_of_def)
  have s: "x_shape example_data = (2, 136, 4, 2)" by (simp add: example_data_def)
  have b0: "get_bl_order ! 0 = (0, 0)" by (simp add: get_bl_order_list)
  have v: "x example_data = (\<lambda>f k p n. 1)" "XYphase example_cal = (\<lambda>i c. 0)"
    by (simp_all add: example_data_def example_cal_def)
  from unrot_delay_phase_factors[OF ex_ok f s _ bl1] unrot_delay_phase_factors[OF ex_ok f s _ b0]
  show ?thesis
    by (simp add: v lobe_0 exp_i_half_pi exp_i_neg_half_pi)
qed

subsection \<open>The data of the caller and the returned value\<close>

text \<open>
  C1. The claim is that unrot leaves every field of the caller's dataset as it was.
  On the example (a geometry of 20 time samples, on which lines 176-177 raise
  nothing), the cell [0, 1, 2, 0] of the caller's \<open>x\<close> is 1 before the call and \<open>\<i>\<close>
  after it: lines 198-200 multiply \<^verbatim>\<open>data['x']\<close> in place, and the deep copy of
  line 203 is taken only afterwards. (apply_attn_corr takes its copy first.)
\<close>

theorem unrot_mutates_input:
  "x example_data 0 1 2 0 = 1
   \<and> x (data_after (unrot example_cal example_azel example_data None)) 0 1 2 0 = \<i>
   \<and> data_after (unrot example_cal example_azel example_data None) \<noteq> example_data"
proof -
  have a: "x example_data 0 1 2 0 = 1" by (simp add: example_data_def)
  have b: "x (data_after (unrot example_cal example_azel example_data None)) 0 1 2 0 = \<i>"
    by (simp add: unrot_ok[OF ex_ok] ex_delay[unfolded One_nat_def])
  have "x (data_after (unrot example_cal example_azel example_data None)) 0 1 2 0
          \<noteq> x example_data 0 1 2 0"
    unfolding a b by simp
  then have "data_after (unrot example_cal example_azel example_data None) \<noteq> example_data"
    by metis
  with a b show ?thesis by simp
qed

text \<open>
  C3. The claim is that unrot marks the missing frequencies in the dataset it returns
  and completes normally. On every input on which no earlier line raises (lines
  176-177 included), the call ends at line 216 with a TypeError, whether or not a
  frequency is missing: the statement indexes the dictionary \<open>cdata\<close> with the array
  \<open>missing\<close>, where the comment of line 215 shows that setting flags on the data was
  meant.
\<close>

theorem unrot_raises_TypeError:
  assumes "unrot_shapes_ok cal (the_azeldict sql_info azeldict) data"
  shows "returned (unrot cal sql_info data azeldict) = Inl TypeError"
  by (simp add: unrot_ok[OF assms])

text \<open>
  On the example the dataset frequency 2 GHz (position 1) is missing from the record,
  and the call raises TypeError.
\<close>

theorem unrot_raises_TypeError_witness:
  "missing example_cal example_data = [1]
   \<and> returned (unrot example_cal example_azel example_data None) = Inl TypeError"
  using unrot_raises_TypeError[OF ex_ok] ex_missing by simp

subsection \<open>The geometry of the caller\<close>

text \<open>
  C10. When the caller passes an \<open>azeldict\<close> \<open>a\<close> (with at least 14 antenna columns,
  and a dataset whose time axis is not empty), the dictionary the caller holds after
  the call is \<open>a'\<close>: in every row of the parallactic angle table the columns 8, 9, 10
  and 12 have lost the original angle of column 13 and column 13 is zero; nothing else
  changes. This holds also when a later line raises. A second call with the same
  dictionary runs the same subtraction on \<open>a'\<close>, which gives \<open>a''\<close>; as column 13 of \<open>a'\<close>
  is zero, \<open>a''\<close> holds the same numbers as \<open>a'\<close>.
\<close>

theorem unrot_azeldict_in_place:
  fixes a :: azeldict
  defines "chi \<equiv> ParallacticAngle a"
  defines "a' \<equiv> a\<lparr>ParallacticAngle := (\<lambda>n c.
                   if n < fst (chi_shape a) \<and> c \<in> {8, 9, 10, 12} then chi n c - chi n 13
                   else if n < fst (chi_shape a) \<and> c = 13 then 0
                   else chi n c)\<rparr>"
  defines "a'' \<equiv> a'\<lparr>ParallacticAngle := (\<lambda>n c.
                   if n < fst (chi_shape a) \<and> c \<in> {8, 9, 10, 12, 13}
                   then ParallacticAngle a' n c - ParallacticAngle a' n 13
                   else ParallacticAngle a' n c)\<rparr>"
  assumes "time data \<noteq> []" and "time data2 \<noteq> []" and "14 \<le> snd (chi_shape a)"
  shows "azeldict_after (unrot cal sql_info data (Some a)) = Some a'
       \<and> azeldict_after (unrot cal2 sql_info2 data2 (Some a')) = Some a''
       \<and> a'' = a'"
proof -
  have c: "13 < snd (chi_shape a)" using assms by simp
  have e1: "a' = chi_rel13 a" unfolding a'_def chi_rel13_def chi_def by (rule refl)
  have c': "13 < snd (chi_shape a')" using c by (simp add: a'_def)
  have e2: "a'' = chi_rel13 a'"
    unfolding a''_def chi_rel13_def
    apply (rule arg_cong[where f="\<lambda>g. a'\<lparr>ParallacticAngle := g\<rparr>"])
    apply (intro ext)
    apply (auto simp: a'_def)
    done
  have g: "(\<lambda>n c. if n < fst (chi_shape a) \<and> c \<in> {8, 9, 10, 12, 13}
                   then ParallacticAngle a' n c - ParallacticAngle a' n 13
                   else ParallacticAngle a' n c) = ParallacticAngle a'"
    by (intro ext) (auto simp: a'_def)
  have e3: "a'' = a'"
    unfolding a''_def g by simp
  show ?thesis
    using unrot_azeldict[OF assms(4) c, of cal sql_info] unrot_azeldict[OF assms(5) c', of cal2 sql_info2]
      e3
    by (simp add: e1[symmetric] e2[symmetric])
qed

text \<open>
  On a table whose angle is the antenna index: antenna 8 goes from 8 to -5, antenna 12
  to -1, antenna 13 to 0, antenna 11 stays 11, and a second call leaves these numbers.
\<close>

theorem unrot_azeldict_in_place_witness:
  "(case azeldict_after (unrot example_cal example_azel example_data (Some example_ramp)) of
      None \<Rightarrow> False
    | Some a' \<Rightarrow> ParallacticAngle a' 0 8 = - 5 \<and> ParallacticAngle a' 0 12 = - 1
        \<and> ParallacticAngle a' 0 13 = 0 \<and> ParallacticAngle a' 0 11 = 11
        \<and> ParallacticAngle example_ramp 0 8 = 8
        \<and> azeldict_after (unrot example_cal example_azel example_data (Some a')) = Some a')"
proof -
  have t: "time example_data \<noteq> []" by (simp add: example_data_def)
  have c: "14 \<le> snd (chi_shape example_ramp)" by (simp add: example_ramp_def)
  from unrot_azeldict_in_place[OF t t c, of example_cal example_azel example_cal example_azel]
  show ?thesis
    by (simp add: example_ramp_def)
qed

subsection \<open>Zero angles and equal phases\<close>

lemma sub_chi13_loop_rel13:
  assumes "13 < snd (chi_shape a)"
  shows "for_each sub_chi13 [8, 9, 10, 12, 13] a = (None, chi_rel13 a)"
proof -
  obtain rows cols where cs: "chi_shape a = (rows, cols)" by (cases "chi_shape a")
  have c: "13 < cols" using assms cs by simp
  show ?thesis
    using sub_chi13_loop[OF cs c] unfolding chi_rel13_def cs fst_conv .
qed

lemma rot4_zero: "rot4 0 v p = v p"
  by (simp add: rot4_def)

lemma fidx_of_bounds:
  assumes "fidx_of cal data = (fidx1, fidx2)"
  shows "distinct fidx1" "length fidx2 = length fidx1"
    "\<forall>c \<in> set fidx2. c < length (nonzero_freqs cal)"
  using assms common_val_idx_fst[of "fghz data" "map (\<lambda>g. FGHz cal ! g) (nonzero_freqs cal)" 4]
    common_val_idx_snd[of "fghz data" "map (\<lambda>g. FGHz cal ! g) (nonzero_freqs cal)" 4]
    common_val_idx_length[of "fghz data" "map (\<lambda>g. FGHz cal ! g) (nonzero_freqs cal)" 4]
  by (simp_all add: fidx_of_def)

lemma rotated_zero:
  assumes "\<And>k n. k < 136 \<Longrightarrow> n < nt \<Longrightarrow> corrected (get_bl_order ! k) \<Longrightarrow> dchi_of chi n (get_bl_order ! k) = 0"
  shows "rotated chi nf nt D = D"
  by (intro ext) (simp add: rotated_def assms rot4_zero)

text \<open>
  C5, as amended. The claim is that with \<open>dchi = 0\<close> on every corrected baseline and time
  sample and with equal delay phases on the two antennas of every corrected baseline,
  the \<open>x\<close> that unrot computes is the input \<open>x\<close>. What holds for the array \<open>cdata['x']\<close>
  that unrot has computed when it reaches line 216: polarization products 0 and 1 are
  the input everywhere; on a corrected baseline \<open>(i, j)\<close> and a matched frequency,
  product 2 is the input multiplied by \<open>exp (\<i> * (- dph j + pi / 2))\<close> and product 3
  the input multiplied by \<open>exp (\<i> * (dph i - pi / 2))\<close>, because lines 196-197 use the
  phase of a single antenna and a quarter turn, not a difference; the other baselines
  and the unmatched frequencies are the input. \<open>chi\<close> is the angle table that line 208
  reads, that is, after the subtraction of lines 172-173.
\<close>

theorem unrot_zero_angles:
  fixes cal :: xy_cal and sql_info :: azeldict and azeldict :: "azeldict option"
  defines "chi \<equiv> ParallacticAngle (snd (for_each sub_chi13 [8, 9, 10, 12, 13]
                                         (the_azeldict sql_info azeldict)))"
    and "dph \<equiv> (\<lambda>a m. XYphase cal (nat a) (nonzero_freqs cal ! m))"
  assumes ok: "unrot_shapes_ok cal (the_azeldict sql_info azeldict) data"
    and fidx: "common_val_idx (fghz data) (map (\<lambda>g. FGHz cal ! g) (nonzero_freqs cal)) 4 = (fidx1, fidx2)"
    and sh: "x_shape data = (nf, nbl, npol, nt)"
    and zero: "\<And>k i j. k < 136 \<Longrightarrow> get_bl_order ! k = (i, j) \<Longrightarrow> i < 14 \<Longrightarrow> j < 14 \<Longrightarrow> i \<noteq> j \<Longrightarrow>
                 (\<forall>n < nt. chi n (nat i) - chi n (nat j) = 0)
                 \<and> (\<forall>m < length (nonzero_freqs cal). dph i m - dph j m = 0)"
  shows "\<exists>cdata. returned (unrot_body cal sql_info data azeldict) = Inr cdata
          \<and> (\<forall>f k n. x cdata f k 0 n = x data f k 0 n \<and> x cdata f k 1 n = x data f k 1 n)
          \<and> (\<forall>k i j. k < 136 \<and> get_bl_order ! k = (i, j) \<and> i < 14 \<and> j < 14 \<and> i \<noteq> j \<longrightarrow>
                (\<forall>m < length fidx1. \<forall>n < nt.
                    x cdata (fidx1 ! m) k 2 n = x data (fidx1 ! m) k 2 n
                        * exp (\<i> * complex_of_real (- dph j (fidx2 ! m) + pi / 2))
                  \<and> x cdata (fidx1 ! m) k 3 n = x data (fidx1 ! m) k 3 n
                        * exp (\<i> * complex_of_real (dph i (fidx2 ! m) - pi / 2))))
          \<and> (\<forall>k i j. k < 136 \<and> get_bl_order ! k = (i, j) \<and> \<not> (i < 14 \<and> j < 14 \<and> i \<noteq> j) \<longrightarrow>
                (\<forall>f p n. x cdata f k p n = x data f k p n))
          \<and> (\<forall>f k p n. f \<notin> set fidx1 \<longrightarrow> x cdata f k p n = x data f k p n)"
proof -
  let ?az = "the_azeldict sql_info azeldict"
  have c13: "13 < snd (chi_shape ?az)"
    using ok by (simp add: unrot_shapes_ok_def sh split: prod.splits)
  have chi: "chi = ParallacticAngle (chi_rel13 ?az)"
    unfolding chi_def sub_chi13_loop_rel13[OF c13] by simp
  have F: "fidx_of cal data = (fidx1, fidx2)" using fidx by (simp add: fidx_of_def)
  note fb = fidx_of_bounds[OF F]
  have dz: "dchi_of chi n (get_bl_order ! k) = 0"
    if "k < 136" "n < nt" "corrected (get_bl_order ! k)" for k n
  proof -
    obtain i j where b: "get_bl_order ! k = (i, j)" by (cases "get_bl_order ! k")
    with that(3) have "i < 14" "j < 14" "i \<noteq> j" by (simp_all add: corrected_def)
    from zero[OF that(1) b this] that(2) show ?thesis by (simp add: dchi_of_def b)
  qed
  have r: "rotated chi nf nt (delay_corrected cal data) = delay_corrected cal data"
    by (rule rotated_zero) (rule dz)
  have ret: "returned (unrot_body cal sql_info data azeldict) = Inr (data\<lparr>x := delay_corrected cal data\<rparr>)"
    by (simp add: unrot_body_ok[OF ok] chi[symmetric] sh r)
  have pos: "first_pos fidx1 (fidx1 ! m) = m" if "m < length fidx1" for m
    using first_pos_nth[OF fb(1) that] .
  have col: "fidx2 ! first_pos fidx1 f < length (nonzero_freqs cal)" if "f \<in> set fidx1" for f
    using first_pos_mem[OF that] fb(2,3) by (metis nth_mem)
  have p1: "xy_factor (dph_of cal) 1 (get_bl_order ! k) (fidx2 ! first_pos fidx1 f) = 1"
    if "k < 136" "corrected (get_bl_order ! k)" "f \<in> set fidx1" for k f
  proof -
    obtain i j where b: "get_bl_order ! k = (i, j)" by (cases "get_bl_order ! k")
    with that(2) have "i < 14" "j < 14" "i \<noteq> j" by (simp_all add: corrected_def)
    from zero[OF that(1) b this] col[OF that(3)]
    have "dph i (fidx2 ! first_pos fidx1 f) - dph j (fidx2 ! first_pos fidx1 f) = 0" by simp
    then show ?thesis
      by (simp add: xy_factor_def b dph_of_def dph_def lobe_0)
  qed
  have c: "corrected (i, j) = (i < 14 \<and> j < 14 \<and> i \<noteq> j)" for i j by (simp add: corrected_def)
  have q0: "xy_factor (dph_of cal) 0 bl m = 1" for bl m by (simp add: xy_factor_def)
  have q01: "delay_corrected cal data f k 0 n = x data f k 0 n
           \<and> delay_corrected cal data f k (Suc 0) n = x data f k (Suc 0) n" for f k n
    unfolding delay_corrected_def F fst_conv snd_conv sh
    by (simp add: q0 p1[unfolded One_nat_def])
  show ?thesis
    unfolding ret
    apply (intro exI[of _ "data\<lparr>x := delay_corrected cal data\<rparr>"] conjI)
        apply simp
       apply (simp add: q01)
      apply (auto simp: delay_corrected_def F sh c xy_factor_def dph_def dph_of_def pos)
    done
qed

lemma ex_chi_zero:
  "ParallacticAngle (snd (for_each sub_chi13 [8, 9, 10, 12, 13] (the_azeldict example_azel None))) n c = 0"
proof -
  have c: "13 < snd (chi_shape (the_azeldict example_azel None))"
    by (simp add: the_azeldict_def example_azel_def)
  show ?thesis
    unfolding sub_chi13_loop_rel13[OF c]
    by (simp add: chi_rel13_def the_azeldict_def example_azel_def)
qed

lemma ex_body_returned:
  "returned (unrot_body example_cal example_azel example_data None)
     = Inr (example_data\<lparr>x := delay_corrected example_cal example_data\<rparr>)"
proof -
  have c: "13 < snd (chi_shape (the_azeldict example_azel None))"
    by (simp add: the_azeldict_def example_azel_def)
  have z: "ParallacticAngle (chi_rel13 (the_azeldict example_azel None)) = (\<lambda>n c. 0)"
    using ex_chi_zero unfolding sub_chi13_loop_rel13[OF c] by (intro ext) simp
  have r: "rotated (\<lambda>n c. 0) nf nt D = D" for nf nt D
    by (rule rotated_zero) (simp add: dchi_of_def)
  show ?thesis
    by (simp add: unrot_body_ok[OF ex_ok] z r)
qed

lemma ex_sh: "x_shape example_data = (2, 136, 4, 2)"
  by (simp add: example_data_def)

lemma ex_common_idx:
  "common_val_idx (fghz example_data)
     (map (\<lambda>g. FGHz example_cal ! g) (nonzero_freqs example_cal)) 4 = ([0], [0])"
  using ex_fidx by (simp add: fidx_of_def)

lemma ex_phase_zero: "XYphase example_cal a m = 0"
  by (simp add: example_cal_def)

text \<open>
  On the example (zero angles, zero phases): baseline (0, 1) at the matched frequency
  keeps products 0 and 1, product 2 becomes \<open>\<i>\<close> and product 3 becomes \<open>- \<i>\<close>.
\<close>

theorem unrot_zero_angles_witness:
  "\<exists>cdata. returned (unrot_body example_cal example_azel example_data None) = Inr cdata
      \<and> x cdata 0 1 0 0 = 1 \<and> x cdata 0 1 1 0 = 1
      \<and> x cdata 0 1 2 0 = \<i> \<and> x cdata 0 1 3 0 = - \<i> \<and> x cdata 1 1 2 0 = 1"
proof -
  have v: "x example_data = (\<lambda>f k p n. 1)" by (simp add: example_data_def)
  have z: "(\<forall>n < 2. ParallacticAngle (snd (for_each sub_chi13 [8, 9, 10, 12, 13]
                                         (the_azeldict example_azel None))) n (nat i)
                   - ParallacticAngle (snd (for_each sub_chi13 [8, 9, 10, 12, 13]
                                         (the_azeldict example_azel None))) n (nat j) = 0)
         \<and> (\<forall>m < length (nonzero_freqs example_cal).
               XYphase example_cal (nat i) (nonzero_freqs example_cal ! m)
               - XYphase example_cal (nat j) (nonzero_freqs example_cal ! m) = 0)" for i j
    by (simp add: ex_chi_zero ex_phase_zero del: for_each.simps)
  from unrot_zero_angles[OF ex_ok ex_common_idx ex_sh z] show ?thesis
    apply (elim exE conjE)
    subgoal premises p for cdata
      using p(1) p(2)[rule_format, of 0 1 0] p(3)[rule_format, of 1 0 1 0 0] p(5)[rule_format, of 1 1 2 0] bl1
      by (simp add: v ex_phase_zero exp_i_half_pi exp_i_neg_half_pi)
    done
qed

text \<open>
  C5 as stated fails on the example: all angles and all delay phases are zero, and
  the cell [0, 1, 2, 0] of the computed array is \<open>\<i>\<close> where the input holds 1.
\<close>

theorem unrot_zero_angles_counterexample:
  "\<not> (\<forall>cal sql_info data azeldict cdata.
        unrot_shapes_ok cal (the_azeldict sql_info azeldict) data
        \<and> (\<forall>k < 136. \<forall>i j. get_bl_order ! k = (i, j) \<and> i < 14 \<and> j < 14 \<and> i \<noteq> j \<longrightarrow>
              (\<forall>n < snd (snd (snd (x_shape data))).
                  ParallacticAngle (snd (for_each sub_chi13 [8, 9, 10, 12, 13]
                                           (the_azeldict sql_info azeldict))) n (nat i)
                  - ParallacticAngle (snd (for_each sub_chi13 [8, 9, 10, 12, 13]
                                           (the_azeldict sql_info azeldict))) n (nat j) = 0)
              \<and> (\<forall>m < length (nonzero_freqs cal).
                  XYphase cal (nat i) (nonzero_freqs cal ! m)
                  - XYphase cal (nat j) (nonzero_freqs cal ! m) = 0))
        \<and> returned (unrot_body cal sql_info data azeldict) = Inr cdata
        \<longrightarrow> (\<forall>f k p n. x cdata f k p n = x data f k p n))"
proof
  assume h: "\<forall>cal sql_info data azeldict cdata.
        unrot_shapes_ok cal (the_azeldict sql_info azeldict) data
        \<and> (\<forall>k < 136. \<forall>i j. get_bl_order ! k = (i, j) \<and> i < 14 \<and> j < 14 \<and> i \<noteq> j \<longrightarrow>
              (\<forall>n < snd (snd (snd (x_shape data))).
                  ParallacticAngle (snd (for_each sub_chi13 [8, 9, 10, 12, 13]
                                           (the_azeldict sql_info azeldict))) n (nat i)
                  - ParallacticAngle (snd (for_each sub_chi13 [8, 9, 10, 12, 13]
                                           (the_azeldict sql_info azeldict))) n (nat j) = 0)
              \<and> (\<forall>m < length (nonzero_freqs cal).
                  XYphase cal (nat i) (nonzero_freqs cal ! m)
                  - XYphase cal (nat j) (nonzero_freqs cal ! m) = 0))
        \<and> returned (unrot_body cal sql_info data azeldict) = Inr cdata
        \<longrightarrow> (\<forall>f k p n. x cdata f k p n = x data f k p n)"
  have "x (example_data\<lparr>x := delay_corrected example_cal example_data\<rparr>) 0 1 2 0
          = x example_data 0 1 2 0"
    by (rule h[rule_format, of example_cal example_azel None example_data])
       (simp add: ex_ok ex_chi_zero ex_phase_zero ex_body_returned del: for_each.simps)
  then have "delay_corrected example_cal example_data 0 1 2 0 = x example_data 0 1 2 0"
    by simp
  moreover have "x example_data 0 1 2 0 = 1" by (simp add: example_data_def)
  ultimately show False
    by (simp add: ex_delay[unfolded One_nat_def])
qed

subsection \<open>The loops of apply_attn_corr\<close>

lemma antgain_inner:
  "fold (antgain_step src_gs ref_gs nt i) [0 ..< n] A =
     (\<lambda>i' q j t. if i' = i \<and> q < 2 \<and> j < n \<and> t < nt then ant_db src_gs ref_gs i q j t
                   else A i' q j t)"
proof (induction n)
  case 0
  then show ?case by simp
next
  case (Suc n)
  have "fold (antgain_step src_gs ref_gs nt i) [0 ..< Suc n] A =
        antgain_step src_gs ref_gs nt i n (fold (antgain_step src_gs ref_gs nt i) [0 ..< n] A)"
    by simp
  also have "\<dots> = antgain_step src_gs ref_gs nt i n
       (\<lambda>i' q j t. if i' = i \<and> q < 2 \<and> j < n \<and> t < nt then ant_db src_gs ref_gs i q j t
                   else A i' q j t)"
    by (simp only: Suc)
  also have "\<dots> = (\<lambda>i' q j t. if i' = i \<and> q < 2 \<and> j < Suc n \<and> t < nt
                                then ant_db src_gs ref_gs i q j t else A i' q j t)"
    by (intro ext) (auto simp: antgain_step_def Let_def set_row_def ant_db_def less_Suc_eq)
  finally show ?case .
qed

lemma antgain_outer:
  "fold (\<lambda>i. fold (antgain_step src_gs ref_gs nt i) [0 ..< 34]) [0 ..< m] A =
     (\<lambda>i q j t. if i < m \<and> q < 2 \<and> j < 34 \<and> t < nt then ant_db src_gs ref_gs i q j t
                  else A i q j t)"
proof (induction m)
  case 0
  then show ?case by simp
next
  case (Suc m)
  have "fold (\<lambda>i. fold (antgain_step src_gs ref_gs nt i) [0 ..< 34]) [0 ..< Suc m] A =
        fold (antgain_step src_gs ref_gs nt m) [0 ..< 34]
          (fold (\<lambda>i. fold (antgain_step src_gs ref_gs nt i) [0 ..< 34]) [0 ..< m] A)"
    by simp
  also have "\<dots> = fold (antgain_step src_gs ref_gs nt m) [0 ..< 34]
       (\<lambda>i q j t. if i < m \<and> q < 2 \<and> j < 34 \<and> t < nt then ant_db src_gs ref_gs i q j t
                  else A i q j t)"
    by (simp only: Suc)
  also have "\<dots> = (\<lambda>i q j t. if i < Suc m \<and> q < 2 \<and> j < 34 \<and> t < nt
                               then ant_db src_gs ref_gs i q j t else A i q j t)"
    unfolding antgain_inner by (intro ext) (auto simp: less_Suc_eq)
  finally show ?case .
qed

lemma antgain_cell:
  "antgain src_gs ref_gs i q j t =
     (if i < 15 \<and> q < 2 \<and> j < 34 \<and> t < length (times src_gs) then ant_db src_gs ref_gs i q j t
      else 0)"
  by (simp add: antgain_def Let_def antgain_outer)

lemma blgain_step_cell:
  "blgain_step ag bands nt (k, bl) B =
     (\<lambda>f k' p t. if k' = k \<and> fst bl < 15 \<and> snd bl < 15 \<and> f < length bands \<and> p < 4 \<and> t < nt
                   then 10 powr ((ag (nat (fst bl)) (pol_i p) (bands ! f) t
                                  + ag (nat (snd bl)) (pol_j p) (bands ! f) t) / 20)
                   else B f k' p t)"
proof -
  have p4: "p < 4 \<longleftrightarrow> p = 0 \<or> p = 1 \<or> p = 2 \<or> p = 3" for p :: nat by auto
  show ?thesis
    apply (cases bl)
    apply (intro ext)
    apply (auto simp: blgain_step_def Let_def set_plane_def pol_i_def pol_j_def p4)
    done
qed

lemma blgain_loop:
  "fold (blgain_step ag bands nt) (enumerate m bls) B =
     (\<lambda>f k p t. if m \<le> k \<and> k < m + length bls \<and> fst (bls ! (k - m)) < 15 \<and> snd (bls ! (k - m)) < 15
                      \<and> f < length bands \<and> p < 4 \<and> t < nt
                  then 10 powr ((ag (nat (fst (bls ! (k - m)))) (pol_i p) (bands ! f) t
                                  + ag (nat (snd (bls ! (k - m)))) (pol_j p) (bands ! f) t) / 20)
                  else B f k p t)"
proof (induction bls arbitrary: m B)
  case Nil
  then show ?case by (auto simp: fun_eq_iff)
next
  case (Cons bl bls)
  show ?case
    apply (simp add: blgain_step_cell Cons.IH)
    apply (intro ext)
    apply (auto simp: nth_Cons' Suc_diff_le)
    done
qed

lemma apply_attn_corr_ok:
  assumes "attn_shapes_ok ref_gs src_gs idx data"
  shows "\<exists>cdata. apply_attn_corr ref_gs src_gs idx data = Inr cdata
           \<and> x cdata = (\<lambda>f k p n.
                 if f < length (fghz data) \<and> k < 136 \<and> p < 4 \<and> n < length idx
                 then x data f k p n * complex_of_real (bl_factor ref_gs src_gs idx data f k p n)
                 else x data f k p n)
           \<and> time cdata = time data \<and> fghz cdata = fghz data
           \<and> px cdata = scale_power (length (fghz data)) (length idx) (length (times src_gs))
                 (\<lambda>s a n. 10 powr (antgain src_gs ref_gs a 0 (bands_of data ! s) (idx ! n) / 10))
                 (px data)
           \<and> py cdata = scale_power (length (fghz data)) (length idx) (length (times src_gs))
                 (\<lambda>s a n. 10 powr (antgain src_gs ref_gs a 1 (bands_of data ! s) (idx ! n) / 10))
                 (py data)"
proof -
  let ?nt = "length (times src_gs)"
  have ok: "2 \<le> length (time data)" "times ref_gs \<noteq> []"
    "list_all (\<lambda>b. - 34 \<le> b \<and> b < 34) (blist (fghz data))"
    "list_all (\<lambda>n. n < ?nt) idx"
    "x_shape data = (length (fghz data), 136, 4, length idx)"
    "fst (px_shape data) * snd (px_shape data) = 134 * 16 * 3 * ?nt"
    "fst (py_shape data) * snd (py_shape data) = 134 * 16 * 3 * ?nt"
    "fits (length (fghz data)) 134" "fits (length idx) ?nt"
    using assms by (simp_all add: attn_shapes_ok_def)
  have t: "time data \<noteq> []" using ok(1) by auto
  have cad: "\<exists>dt. cadence (time data) = Inr dt"
    using ok(1) by (simp add: cadence_def Let_def)
  then obtain dt where cad: "cadence (time data) = Inr dt" ..
  have bands: "np_indices 34 (blist (fghz data)) = Inr (bands_of data)"
    using ok(3) by (simp add: np_indices_def bands_of_def)
  have lb: "length (bands_of data) = length (fghz data)"
    by (simp add: bands_of_def blist_def)
  obtain pxr pxc where px: "px_shape data = (pxr, pxc)" by (cases "px_shape data")
  obtain pyr pyc where py: "py_shape data = (pyr, pyc)" by (cases "py_shape data")
  have sz: "pxr * pxc = 134 * 16 * 3 * ?nt" "pyr * pyc = 134 * 16 * 3 * ?nt"
    using ok(6,7) px py by simp_all
  have idx: "idx ! n < ?nt" if "n < length idx" for n
    using ok(4) that by (simp add: list_all_length)
  have cell: "fold (blgain_step (antgain src_gs ref_gs) (bands_of data) ?nt)
                 (enumerate 0 get_bl_order) (\<lambda>f k p t. 0) f k p (idx ! n)
              = bl_factor ref_gs src_gs idx data f k p n"
    if "f < length (fghz data)" "k < 136" "p < 4" "n < length idx" for f k p n
    using that idx[OF that(4)]
    by (simp add: blgain_loop get_bl_order_length lb bl_factor_def)
  have x': "(\<lambda>f k p n.
               if f < length (fghz data) \<and> k < 136 \<and> p < 4 \<and> n < length idx
               then x data f k p n
                    * complex_of_real (fold (blgain_step (antgain src_gs ref_gs) (bands_of data) ?nt)
                        (enumerate 0 get_bl_order) (\<lambda>f k p t. 0)
                        (bc (length (fghz data)) (length (fghz data)) f) (bc 136 136 k)
                        (bc 4 4 p) (idx ! bc (length idx) (length idx) n))
               else x data f k p n)
          = (\<lambda>f k p n.
               if f < length (fghz data) \<and> k < 136 \<and> p < 4 \<and> n < length idx
               then x data f k p n * complex_of_real (bl_factor ref_gs src_gs idx data f k p n)
               else x data f k p n)"
    by (intro ext) (simp add: bc_def cell)
  show ?thesis
    unfolding apply_attn_corr_def
    using t ok(2,4,8,9)
    by (simp add: cad bands Let_def ok(5) px py sz fits_def x')
qed

lemma np_indices_bound:
  assumes "np_indices n bs = Inr bands"
  shows "length bands = length bs" "\<forall>m < length bs. bands ! m < n"
proof -
  have a: "list_all (\<lambda>b. - int n \<le> b \<and> b < int n) bs"
    and b: "bands = map (\<lambda>b. nat (if b < 0 then b + int n else b)) bs"
    using assms by (auto simp: np_indices_def split: if_splits)
  show "length bands = length bs" by (simp add: b)
  show "\<forall>m < length bs. bands ! m < n"
    using a by (auto simp: b list_all_length)
qed

lemma bands_of_eq:
  assumes "attn_shapes_ok ref_gs src_gs idx data"
  shows "np_indices 34 (blist (fghz data)) = Inr (bands_of data)"
  using assms by (simp add: attn_shapes_ok_def np_indices_def bands_of_def)

lemma bl_factor_eq:
  assumes ok: "attn_shapes_ok ref_gs src_gs idx data"
    and bl: "get_bl_order ! k = (i, j)" "i < 15" "j < 15"
    and f: "f < length (fghz data)" and n: "n < length idx" and p: "p < 4"
  shows "bl_factor ref_gs src_gs idx data f k p n =
           10 powr ((ant_db src_gs ref_gs (nat i) (pol_i p) (bands_of data ! f) (idx ! n)
                     + ant_db src_gs ref_gs (nat j) (pol_j p) (bands_of data ! f) (idx ! n)) / 20)"
proof -
  have b: "bands_of data ! f < 34"
    using np_indices_bound[OF bands_of_eq[OF ok]] f by (simp add: blist_def)
  have t: "idx ! n < length (times src_gs)"
    using ok n by (simp add: attn_shapes_ok_def list_all_length)
  have q: "pol_i p < 2" "pol_j p < 2" by (simp_all add: pol_i_def pol_j_def)
  have a: "nat i < 15" "nat j < 15" using bl by simp_all
  show ?thesis
    by (simp add: bl_factor_def bl antgain_cell a b t q)
qed

subsection \<open>Baseline gains\<close>

text \<open>
  C7. On well-shaped inputs apply_attn_corr returns a dataset in which, for entry \<open>k\<close>
  of the baseline order with both antennas \<open>i, j\<close> below 15, every cell of \<open>x\<close> is the
  input multiplied by \<open>10 powr ((antgain[i, pol_i, band] + antgain[j, pol_j, band]) / 20)\<close>,
  with H of \<open>i\<close> and H of \<open>j\<close> for product 0, V and V for product 1, H and V for product
  2, V and H for product 3; \<open>band\<close> is the band index of the frequency and the gain is
  taken at the gain time \<open>idx ! n\<close>. \<open>g a q b t\<close> is the entry of \<open>antgain\<close>: the
  difference \<open>cd\<close> of the component tables plus the difference \<open>ad\<close> of the attenuator
  settings. So when the component differences of both antennas are zero, the
  attenuator difference is 6 on the polarization of \<open>i\<close> and 0 on that of \<open>j\<close>, the
  factor is \<open>10 powr (6 / 20)\<close>.
\<close>

theorem apply_attn_corr_baseline_gain:
  fixes ref_gs src_gs :: gain_state
  defines "cd \<equiv> (\<lambda>a q t.
              if q = 0 then h1 src_gs a t + h2 src_gs a t - ref_median ref_gs h1 a - ref_median ref_gs h2 a
              else v1 src_gs a t + v2 src_gs a t - ref_median ref_gs v1 a - ref_median ref_gs v2 a)"
    and "ad \<equiv> (\<lambda>a q b.
              if q = 0 then dcmattn src_gs a 0 b - dcmattn ref_gs a 0 b
              else dcmattn src_gs a 1 b - dcmattn ref_gs a 1 b)"
  defines "g \<equiv> (\<lambda>a q b t. cd (nat a) q t + ad (nat a) q b)"
  assumes ok: "attn_shapes_ok ref_gs src_gs idx data"
    and k: "k < 136" and bl: "get_bl_order ! k = (i, j)" and i: "i < 15" and j: "j < 15"
    and f: "f < length (fghz data)" and n: "n < length idx"
    and bands: "np_indices 34 (blist (fghz data)) = Inr bands"
  shows "\<exists>cdata. apply_attn_corr ref_gs src_gs idx data = Inr cdata
      \<and> (\<forall>a q. 0 \<le> a \<and> a < 15 \<and> q < 2 \<longrightarrow>
             antgain src_gs ref_gs (nat a) q (bands ! f) (idx ! n) = g a q (bands ! f) (idx ! n))
      \<and> x cdata f k 0 n = x data f k 0 n * complex_of_real
           (10 powr ((g i 0 (bands ! f) (idx ! n) + g j 0 (bands ! f) (idx ! n)) / 20))
      \<and> x cdata f k 1 n = x data f k 1 n * complex_of_real
           (10 powr ((g i 1 (bands ! f) (idx ! n) + g j 1 (bands ! f) (idx ! n)) / 20))
      \<and> x cdata f k 2 n = x data f k 2 n * complex_of_real
           (10 powr ((g i 0 (bands ! f) (idx ! n) + g j 1 (bands ! f) (idx ! n)) / 20))
      \<and> x cdata f k 3 n = x data f k 3 n * complex_of_real
           (10 powr ((g i 1 (bands ! f) (idx ! n) + g j 0 (bands ! f) (idx ! n)) / 20))
      \<and> (\<forall>p < 4. cd (nat i) (pol_i p) (idx ! n) = 0 \<and> cd (nat j) (pol_j p) (idx ! n) = 0
                  \<and> ad (nat i) (pol_i p) (bands ! f) = 6 \<and> ad (nat j) (pol_j p) (bands ! f) = 0
             \<longrightarrow> x cdata f k p n = x data f k p n * complex_of_real (10 powr (6 / 20)))"
proof -
  have be: "bands = bands_of data" using bands bands_of_eq[OF ok] by simp
  have ge: "ant_db src_gs ref_gs (nat a) q b t = g a q b t" for a q b t
    by (simp add: ant_db_def g_def cd_def ad_def)
  have b34: "bands ! f < 34"
    using np_indices_bound[OF bands] f by (simp add: blist_def)
  have t: "idx ! n < length (times src_gs)"
    using ok n by (simp add: attn_shapes_ok_def list_all_length)
  from apply_attn_corr_ok[OF ok] obtain cdata where
    r: "apply_attn_corr ref_gs src_gs idx data = Inr cdata"
    and xc: "x cdata = (\<lambda>f k p n.
                 if f < length (fghz data) \<and> k < 136 \<and> p < 4 \<and> n < length idx
                 then x data f k p n * complex_of_real (bl_factor ref_gs src_gs idx data f k p n)
                 else x data f k p n)"
    by blast
  have cell: "x cdata f k p n = x data f k p n * complex_of_real
           (10 powr ((g i (pol_i p) (bands ! f) (idx ! n) + g j (pol_j p) (bands ! f) (idx ! n)) / 20))"
    if "p < 4" for p
    using that k f n
    by (simp add: xc bl_factor_eq[OF ok bl i j f n that] ge be)
  have ag: "antgain src_gs ref_gs (nat a) q (bands ! f) (idx ! n) = g a q (bands ! f) (idx ! n)"
    if "0 \<le> a" "a < 15" "q < 2" for a q
  proof -
    have "nat a < 15" using that by simp
    then show ?thesis using that b34 t by (simp add: antgain_cell ge)
  qed
  have six: "x cdata f k p n = x data f k p n * complex_of_real (10 powr (6 / 20))"
    if "p < 4" "cd (nat i) (pol_i p) (idx ! n) = 0" "cd (nat j) (pol_j p) (idx ! n) = 0"
       "ad (nat i) (pol_i p) (bands ! f) = 6" "ad (nat j) (pol_j p) (bands ! f) = 0" for p
    using cell[OF that(1)] that(2-5) by (simp add: g_def)
  show ?thesis
    using r ag cell[of 0] cell[of 1] cell[of 2] cell[of 3] six
    by (simp add: pol_i_def pol_j_def)
qed

lemma median_zeros: "median [0, 0] = 0"
  by (simp add: median_def Let_def)

lemma ex_ref_median:
  "ref_median example_gs h1 a = 0" "ref_median example_gs h2 a = 0"
  "ref_median example_gs v1 a = 0" "ref_median example_gs v2 a = 0"
  by (simp_all add: ref_median_def example_gs_def upt2 median_zeros)

lemma ex1_blist: "blist (fghz example_data1) = [1]"
  by (simp add: blist_def example_data1_def astype_int_def)

lemma ex1_bands: "np_indices 34 (blist (fghz example_data1)) = Inr [1]"
  unfolding ex1_blist by (simp add: np_indices_def)

lemma ex1_ok: "attn_shapes_ok example_gs example_gs example_idx example_data1"
  unfolding attn_shapes_ok_def ex1_blist
  by (simp add: example_gs_def example_data1_def example_idx_def fits_def)

lemma ex1_ok6: "attn_shapes_ok example_gs example_gs6 example_idx example_data1"
  unfolding attn_shapes_ok_def ex1_blist
  by (simp add: example_gs_def example_gs6_def example_data1_def example_idx_def fits_def)

text \<open>
  With 6 dB on antenna 0, polarization H: on baseline (0, 1) the products 0 (H, H) and
  2 (H, V) are multiplied by \<open>10 powr (6 / 20)\<close>, the products 1 and 3 keep their value.
\<close>

theorem apply_attn_corr_baseline_gain_witness:
  "\<exists>cdata. apply_attn_corr example_gs example_gs6 example_idx example_data1 = Inr cdata
      \<and> x cdata 0 1 0 0 = complex_of_real (10 powr (6 / 20))
      \<and> x cdata 0 1 1 0 = 1
      \<and> x cdata 0 1 2 0 = complex_of_real (10 powr (6 / 20))
      \<and> x cdata 0 1 3 0 = 1"
proof -
  have f: "0 < length (fghz example_data1)" by (simp add: example_data1_def)
  have v: "x example_data1 = (\<lambda>f k p n. 1)" by (simp add: example_data1_def)
  have s: "h1 example_gs6 = (\<lambda>a t. 0)" "h2 example_gs6 = (\<lambda>a t. 0)"
    "v1 example_gs6 = (\<lambda>a t. 0)" "v2 example_gs6 = (\<lambda>a t. 0)"
    "dcmattn example_gs6 = (\<lambda>a q b. if a = 0 \<and> q = 0 then 6 else 0)"
    "dcmattn example_gs = (\<lambda>a q b. 0)"
    by (simp_all add: example_gs6_def example_gs_def)
  have n: "0 < length example_idx" by (simp add: example_idx_def)
  have k: "Suc 0 < 136" and i: "(0::int) < 15" and j: "(1::int) < 15" by simp_all
  from apply_attn_corr_baseline_gain[OF ex1_ok6 k bl1 i j f n ex1_bands]
  show ?thesis
    apply (elim exE conjE)
    subgoal premises p for cdata
      using p(1) p(3) p(4) p(5) p(6)
      by (simp add: v s ex_ref_median)
    done
qed

lemma scale_power_one:
  assumes "fits nf 134" "fits nidx nt"
    and g: "\<And>s a n. s < nf \<Longrightarrow> a < 15 \<Longrightarrow> n < nidx \<Longrightarrow> gf s a n = 1"
  shows "scale_power nf nidx nt gf buf = buf"
proof (intro ext)
  fix b
  show "scale_power nf nidx nt gf buf b = buf b"
  proof (cases "b < 134 * 16 * 3 * nt \<and> (b div (3 * nt)) mod 16 < 15")
    case False
    then show ?thesis by (auto simp: scale_power_def Let_def)
  next
    case True
    then have nt: "0 < nt" by (cases nt) auto
    have "b < 134 * (48 * nt)" using True by simp
    then have s: "b div (48 * nt) < 134"
      using nt by (simp add: less_mult_imp_div_less mult.commute)
    have s': "bc nf 134 (b div (48 * nt)) < nf"
      using assms(1) s by (auto simp: bc_def fits_def)
    have t': "bc nidx nt (b mod nt) < nidx"
      using assms(2) nt by (auto simp: bc_def fits_def)
    have "gf (bc nf 134 (b div (48 * nt))) ((b div (3 * nt)) mod 16) (bc nidx nt (b mod nt)) = 1"
      using g[OF s' _ t'] True by simp
    then show ?thesis by (simp add: scale_power_def Let_def)
  qed
qed

lemma bl107: "get_bl_order ! 107 = (15, 15)"
  by (simp add: get_bl_order_list)

text \<open>
  C2. The claim is that with a source gain state identical to the reference gain
  state apply_attn_corr returns its input unchanged, the baselines that include an
  antenna index of 15 with a unit factor. What the code returns on well-shaped inputs
  when every source sample of h1, h2, v1 and v2 equals the reference median and the
  attenuator tables agree: \<open>time\<close>, \<open>fghz\<close>, \<open>px\<close> and \<open>py\<close> are those of the input, \<open>x\<close> is
  the input on every baseline with both antennas below 15, and \<open>x\<close> is 0 at every
  frequency, product and time of a baseline that includes antenna 15. \<open>blgain\<close>
  starts as zeros (line 97) and lines 100-104 fill only the baselines below 15, where
  the power arrays leave the slot of antenna 15 as it is (lines 116-120).
\<close>

theorem apply_attn_corr_same_state:
  assumes ok: "attn_shapes_ok ref_gs src_gs idx data"
    and comp: "\<And>a t. a < 15 \<Longrightarrow> t < length (times src_gs) \<Longrightarrow>
                 h1 src_gs a t = ref_median ref_gs h1 a \<and> h2 src_gs a t = ref_median ref_gs h2 a
                 \<and> v1 src_gs a t = ref_median ref_gs v1 a \<and> v2 src_gs a t = ref_median ref_gs v2 a"
    and attn: "\<And>a q b. a < 15 \<Longrightarrow> q < 2 \<Longrightarrow> b < 34 \<Longrightarrow> dcmattn src_gs a q b = dcmattn ref_gs a q b"
    and k: "k < 136" and bl: "get_bl_order ! k = (i, j)"
  shows "\<exists>cdata. apply_attn_corr ref_gs src_gs idx data = Inr cdata
           \<and> time cdata = time data \<and> fghz cdata = fghz data
           \<and> px cdata = px data \<and> py cdata = py data
           \<and> (i < 15 \<and> j < 15 \<longrightarrow> (\<forall>f p n. x cdata f k p n = x data f k p n))
           \<and> (\<not> (i < 15 \<and> j < 15) \<longrightarrow>
                (\<forall>f p n. f < length (fghz data) \<and> p < 4 \<and> n < length idx \<longrightarrow> x cdata f k p n = 0))"
proof -
  let ?nt = "length (times src_gs)"
  from apply_attn_corr_ok[OF ok] obtain cdata where
    r: "apply_attn_corr ref_gs src_gs idx data = Inr cdata"
    and xc: "x cdata = (\<lambda>f k p n.
                 if f < length (fghz data) \<and> k < 136 \<and> p < 4 \<and> n < length idx
                 then x data f k p n * complex_of_real (bl_factor ref_gs src_gs idx data f k p n)
                 else x data f k p n)"
    and tf: "time cdata = time data" "fghz cdata = fghz data"
    and pxc: "px cdata = scale_power (length (fghz data)) (length idx) ?nt
                 (\<lambda>s a n. 10 powr (antgain src_gs ref_gs a 0 (bands_of data ! s) (idx ! n) / 10))
                 (px data)"
    and pyc: "py cdata = scale_power (length (fghz data)) (length idx) ?nt
                 (\<lambda>s a n. 10 powr (antgain src_gs ref_gs a 1 (bands_of data ! s) (idx ! n) / 10))
                 (py data)"
    by blast
  have z: "ant_db src_gs ref_gs a q b t = 0"
    if "a < 15" "q < 2" "b < 34" "t < ?nt" for a q b t
  proof -
    have q: "q = 0 \<or> q = 1" using that(2) by auto
    show ?thesis
      using comp[OF that(1,4)] attn[OF that(1) _ that(3), of 0] attn[OF that(1) _ that(3), of 1] q
      by (auto simp: ant_db_def)
  qed
  have band: "bands_of data ! f < 34" if "f < length (fghz data)" for f
    using np_indices_bound[OF bands_of_eq[OF ok]] that by (simp add: blist_def)
  have tm: "idx ! n < ?nt" if "n < length idx" for n
    using ok that by (simp add: attn_shapes_ok_def list_all_length)
  have fit: "fits (length (fghz data)) 134" "fits (length idx) ?nt"
    using ok by (simp_all add: attn_shapes_ok_def)
  have gain1: "10 powr (antgain src_gs ref_gs a q (bands_of data ! s) (idx ! n) / 10) = 1"
    if "s < length (fghz data)" "a < 15" "n < length idx" "q < 2" for s a n q
    using that by (simp add: antgain_cell band tm z)
  have px1: "px cdata = px data"
    unfolding pxc by (rule scale_power_one[OF fit]) (simp add: gain1)
  have py1: "py cdata = py data"
    unfolding pyc by (rule scale_power_one[OF fit]) (simp add: gain1)
  have one: "bl_factor ref_gs src_gs idx data f k p n = 1"
    if "i < 15" "j < 15" "f < length (fghz data)" "p < 4" "n < length idx" for f p n
  proof -
    have q: "pol_i p < 2" "pol_j p < 2" by (simp_all add: pol_i_def pol_j_def)
    have a: "nat i < 15" "nat j < 15" using that(1,2) by simp_all
    show ?thesis
      unfolding bl_factor_eq[OF ok bl that(1,2,3,5,4)]
      by (simp add: z[OF a(1) q(1) band[OF that(3)] tm[OF that(5)]]
                    z[OF a(2) q(2) band[OF that(3)] tm[OF that(5)]])
  qed
  have same: "x cdata f k p n = x data f k p n" if "i < 15" "j < 15" for f p n
    using that by (simp add: xc one)
  have zero: "x cdata f k p n = 0"
    if "\<not> (i < 15 \<and> j < 15)" "f < length (fghz data)" "p < 4" "n < length idx" for f p n
    using that k by (auto simp: xc bl_factor_def bl)
  show ?thesis
    using r tf px1 py1 same zero by blast
qed

text \<open>
  With the zero gain state as source and reference: the power arrays and baseline
  (0, 1) keep their values; entry 107 of the baseline order is (15, 15), and its cell
  [0, 107, 0, 0] is 1 in the input and 0 in the returned dataset.
\<close>

theorem apply_attn_corr_same_state_witness:
  "\<exists>cdata. apply_attn_corr example_gs example_gs example_idx example_data1 = Inr cdata
      \<and> px cdata = px example_data1 \<and> py cdata = py example_data1
      \<and> x cdata 0 1 0 0 = 1 \<and> x cdata 0 1 2 1 = 1
      \<and> x example_data1 0 107 0 0 = 1 \<and> x cdata 0 107 0 0 = 0"
proof -
  have t: "h1 example_gs = (\<lambda>a t. 0)" "h2 example_gs = (\<lambda>a t. 0)"
    "v1 example_gs = (\<lambda>a t. 0)" "v2 example_gs = (\<lambda>a t. 0)"
    by (simp_all add: example_gs_def)
  have c: "h1 example_gs a t = ref_median example_gs h1 a \<and> h2 example_gs a t = ref_median example_gs h2 a
         \<and> v1 example_gs a t = ref_median example_gs v1 a \<and> v2 example_gs a t = ref_median example_gs v2 a"
    for a t
    by (simp add: ex_ref_median t)
  have v: "x example_data1 = (\<lambda>f k p n. 1)" by (simp add: example_data1_def)
  have l: "(0::nat) < length (fghz example_data1)" "(0::nat) < length example_idx"
    "(1::nat) < length example_idx"
    by (simp_all add: example_data1_def example_idx_def)
  have k: "Suc 0 < 136" "(107::nat) < 136" by simp_all
  from apply_attn_corr_same_state[OF ex1_ok c refl k(1) bl1]
       apply_attn_corr_same_state[OF ex1_ok c refl k(2) bl107]
  show ?thesis using l by (auto simp: v)
qed

text \<open>
  So no dataset with \<open>x\<close> equal to the input is returned in general: on the example,
  source and reference are the same gain state and the returned \<open>x\<close> differs from the
  input at the cell [0, 107, 0, 0].
\<close>

theorem apply_attn_corr_same_state_counterexample:
  "\<not> (\<forall>ref_gs src_gs idx data cdata.
        attn_shapes_ok ref_gs src_gs idx data
        \<and> src_gs = ref_gs
        \<and> (\<forall>a t. h1 src_gs a t = ref_median ref_gs h1 a \<and> h2 src_gs a t = ref_median ref_gs h2 a
                 \<and> v1 src_gs a t = ref_median ref_gs v1 a \<and> v2 src_gs a t = ref_median ref_gs v2 a)
        \<and> apply_attn_corr ref_gs src_gs idx data = Inr cdata
        \<longrightarrow> (\<forall>f k p n. x cdata f k p n = x data f k p n))"
proof
  assume h: "\<forall>ref_gs src_gs idx data cdata.
        attn_shapes_ok ref_gs src_gs idx data
        \<and> src_gs = ref_gs
        \<and> (\<forall>a t. h1 src_gs a t = ref_median ref_gs h1 a \<and> h2 src_gs a t = ref_median ref_gs h2 a
                 \<and> v1 src_gs a t = ref_median ref_gs v1 a \<and> v2 src_gs a t = ref_median ref_gs v2 a)
        \<and> apply_attn_corr ref_gs src_gs idx data = Inr cdata
        \<longrightarrow> (\<forall>f k p n. x cdata f k p n = x data f k p n)"
  from apply_attn_corr_ok[OF ex1_ok] obtain cdata where
    r: "apply_attn_corr example_gs example_gs example_idx example_data1 = Inr cdata"
    and xc: "x cdata = (\<lambda>f k p n.
                 if f < length (fghz example_data1) \<and> k < 136 \<and> p < 4 \<and> n < length example_idx
                 then x example_data1 f k p n
                      * complex_of_real (bl_factor example_gs example_gs example_idx example_data1 f k p n)
                 else x example_data1 f k p n)"
    by blast
  have t: "h1 example_gs = (\<lambda>a t. 0)" "h2 example_gs = (\<lambda>a t. 0)"
    "v1 example_gs = (\<lambda>a t. 0)" "v2 example_gs = (\<lambda>a t. 0)"
    by (simp_all add: example_gs_def)
  have "x cdata 0 107 0 0 = x example_data1 0 107 0 0"
    by (rule h[rule_format, of example_gs example_gs example_idx example_data1])
       (simp add: ex1_ok r ex_ref_median t)
  moreover have "x cdata 0 107 0 0 = 0"
    by (simp add: xc bl_factor_def bl107 example_data1_def example_idx_def)
  moreover have "x example_data1 0 107 0 0 = 1" by (simp add: example_data1_def)
  ultimately show False by simp
qed

subsection \<open>Band indices\<close>

text \<open>
  C4 as stated fails at 1.875 GHz: \<open>fghz * 2 - 1 = 2.75\<close>, which line 96 cuts to 2
  (band index 1), while rounding gives 3 (band index 2).
\<close>

theorem blist_round_counterexample:
  "\<not> (\<forall>fs m. m < length fs \<longrightarrow> blist fs ! m = round (fs ! m * 2 - 1) - 1)"
proof
  assume h: "\<forall>fs m. m < length fs \<longrightarrow> blist fs ! m = round (fs ! m * 2 - 1) - 1"
  have "blist [15 / 8] ! 0 = round ([15 / 8 :: real] ! 0 * 2 - 1) - 1"
    by (rule h[rule_format]) simp
  moreover have "blist [15 / 8] ! 0 = 1"
  proof -
    have "\<lfloor>11 / 4 :: real\<rfloor> = 2" by (simp add: floor_eq_iff)
    then show ?thesis by (simp add: blist_def astype_int_def)
  qed
  moreover have "round ([15 / 8 :: real] ! 0 * 2 - 1) - 1 = 2"
  proof -
    have "\<lfloor>13 / 4 :: real\<rfloor> = 3" by (simp add: floor_eq_iff)
    then show ?thesis by (simp add: round_def)
  qed
  ultimately show False by simp
qed

text \<open>
  C4, as amended. The band index of a frequency is the integer part of
  \<open>fghz * 2 - 1\<close>, cut towards zero, minus 1. For a frequency of at least 0.5 GHz it is
  the integer \<open>b\<close> with \<open>b + 1 \<le> fghz * 2 - 1 < b + 2\<close>, and it is the rounded value
  minus 1 exactly when the fractional part of \<open>fghz * 2 - 1\<close> is below one half.
\<close>

theorem blist_truncates:
  assumes "m < length fs"
  shows "blist fs ! m = (if 0 \<le> fs ! m * 2 - 1 then \<lfloor>fs ! m * 2 - 1\<rfloor> else \<lceil>fs ! m * 2 - 1\<rceil>) - 1
       \<and> (1 / 2 \<le> fs ! m \<longrightarrow>
             real_of_int (blist fs ! m) + 1 \<le> fs ! m * 2 - 1
             \<and> fs ! m * 2 - 1 < real_of_int (blist fs ! m) + 2
             \<and> (blist fs ! m = round (fs ! m * 2 - 1) - 1 \<longleftrightarrow> frac (fs ! m * 2 - 1) < 1 / 2))"
proof -
  let ?v = "fs ! m * 2 - 1"
  have b: "blist fs ! m = astype_int ?v - 1" using assms by (simp add: blist_def)
  have r: "round ?v = (if frac ?v < 1 / 2 then \<lfloor>?v\<rfloor> else \<lfloor>?v\<rfloor> + 1)"
    unfolding round_def frac_def by (auto simp: floor_eq_iff) linarith+
  show ?thesis
    unfolding b astype_int_def
    by (auto simp: r)
qed

text \<open>At 1.875, 1 and 0.25 GHz the band indices are 1, 0 and -1.\<close>

theorem blist_truncates_witness:
  "blist [15 / 8, 1, 1 / 4] ! 0 = 1 \<and> blist [15 / 8, 1, 1 / 4] ! 1 = 0
   \<and> blist [15 / 8, 1, 1 / 4] ! 2 = - 1"
proof -
  have f: "\<lfloor>11 / 4 :: real\<rfloor> = 2" "\<lceil>- (1 / 2) :: real\<rceil> = 0"
    by (simp_all add: floor_eq_iff ceiling_eq_iff)
  have l: "0 < length [15 / 8, 1, 1 / 4 :: real]" "1 < length [15 / 8, 1, 1 / 4 :: real]"
          "2 < length [15 / 8, 1, 1 / 4 :: real]" by simp_all
  from blist_truncates[OF l(1)] blist_truncates[OF l(2)] blist_truncates[OF l(3)]
  show ?thesis by (simp add: f)
qed

end
